theory Spec2Isabelle
  imports Complex_Main "HOL-Library.Word" "HOL-Library.Multiset" "HOL-Library.Log_Nat"
begin

unbundle bit_operations_syntax

section \<open>Common data: bytes, errors, float64\<close>

type_synonym byte = "8 word"
type_synonym bytes = "byte list"

text \<open>
  Every error return and every panic of the Go sources is a value of this type.
  \<open>ErrDecrypt calculated stored\<close> is the error \<open>decryptKeyV3\<close> formats from
  \<open>ErrDecrypt\<close> and the two MACs in hex; \<open>Panic\<close> carries the reason of a run-time panic
  (a failed type assertion, a slice out of range, an exhausted entropy source).
\<close>

datatype error =
    ErrNoUTXO
  | ParseFloatError
  | InvalidByteError char
  | ErrLength
  | UnmarshalTypeError
  | ErrUnsupportedVersion
  | ErrCipherNotSupported string
  | ErrDecrypt string string
  | ErrUnsupportedPRF string
  | ErrUnsupportedKDF string
  | KeySizeError nat
  | ScryptError
  | Panic string

text \<open>
  Go's \<open>float64\<close>: a finite IEEE-754 binary64 value is the rational number it denotes.
  Comparison is the order of the rationals; an arithmetic operation is the exact operation
  followed by \<open>round64\<close>, rounding to the nearest binary64 value, ties to even (53-bit
  significand, least exponent -1022, subnormals spaced \<open>2 powi (-1074)\<close>). NaN, the
  infinities and the sign of zero are not represented.
\<close>

type_synonym float64 = rat

definition floor_log2 :: "rat \<Rightarrow> int" where
  "floor_log2 x =
     (let (p, q) = quotient_of x; d = bitlen p - bitlen q
      in if 2 powi d \<le> x then d else d - 1)"

definition round_half_even :: "rat \<Rightarrow> int" where
  "round_half_even q =
     (let f = \<lfloor>q\<rfloor>; r = q - of_int f
      in if r < 1 / 2 then f else if 1 / 2 < r then f + 1
         else if even f then f else f + 1)"

definition round64 :: "rat \<Rightarrow> float64" where
  "round64 x =
     (if x = 0 then 0
      else let e = max (floor_log2 \<bar>x\<bar>) (- 1022); u = 2 powi (e - 52)
           in of_int (round_half_even (x / u)) * u)"

definition is_float64 :: "rat \<Rightarrow> bool" where
  "is_float64 x = (round64 x = x)"

definition float64_sub :: "float64 \<Rightarrow> float64 \<Rightarrow> float64" where
  "float64_sub a b = round64 (a - b)"

section \<open>neo: unspent outputs and their selection\<close>

text \<open>
  \<open>neogo.UTXO\<close> (an imported package), with the fields the transaction code reads.
  \<open>VoutValue\<close> holds what the method \<open>Value()\<close> returns for the output: the float64 parsed
  from the decimal string \<open>Vout.Value\<close> and the parse error, if any.
\<close>

record UTXO =
  TransactionID :: string
  VoutN :: int
  VoutValue :: "float64 \<times> error option"
  SpentBlock :: int

definition UTXO_Value :: "UTXO \<Rightarrow> float64 \<times> error option" where
  "UTXO_Value utxo = VoutValue utxo"

text \<open>An unspent output \<open>n\<close> of transaction \<open>txid\<close> whose value string parses to \<open>v\<close>.\<close>

definition UTXO_of :: "string \<Rightarrow> int \<Rightarrow> float64 \<Rightarrow> UTXO" where
  "UTXO_of txid n v =
     \<lparr>TransactionID = txid, VoutN = n, VoutValue = (v, None), SpentBlock = 0\<rparr>"

text \<open>
  \<open>sort.Sort\<close> on a slice, by the \<open>Less\<close> of its sorter type: insertion sort, which is what
  the library runs on slices of fewer than 12 elements (on longer slices it runs another
  algorithm, which can differ in the order of elements that are not \<open>Less\<close> either way).
  Each element in turn moves left while it is \<open>Less\<close> than its left neighbour:
  \<open>sort_insert lt x left\<close> takes the elements to the left of \<open>x\<close>, nearest first, and
  returns them with \<open>x\<close> in its place, in the same order. The slice is sorted in place:
  the result is the new content of the caller's backing array.
\<close>

fun sort_insert :: "('a \<Rightarrow> 'a \<Rightarrow> bool) \<Rightarrow> 'a \<Rightarrow> 'a list \<Rightarrow> 'a list" where
  "sort_insert lt x [] = [x]"
| "sort_insert lt x (y # left) =
     (if lt x y then y # sort_insert lt x left else x # y # left)"

definition sort_Sort :: "('a \<Rightarrow> 'a \<Rightarrow> bool) \<Rightarrow> 'a list \<Rightarrow> 'a list" where
  "sort_Sort lt xs = rev (foldl (\<lambda>left x. sort_insert lt x left) [] xs)"

definition utxoSorter_Less :: "UTXO \<Rightarrow> UTXO \<Rightarrow> bool" where
  "utxoSorter_Less i j = (fst (UTXO_Value i) < fst (UTXO_Value j))"

definition claimSorter_Less :: "UTXO \<Rightarrow> UTXO \<Rightarrow> bool" where
  "claimSorter_Less i j = (SpentBlock i < SpentBlock j)"

text \<open>
  The loop of \<open>CalcTxInput\<close> over the sorted slice, with the loop variables \<open>selected\<close> and
  \<open>vinvalue\<close>. Each round appends the output and assigns its value to \<open>vinvalue\<close>.
\<close>

fun CalcTxInput_loop ::
  "float64 \<Rightarrow> UTXO list \<Rightarrow> UTXO list \<Rightarrow> float64 \<Rightarrow> error + (UTXO list \<times> float64)" where
  "CalcTxInput_loop amount [] selected vinvalue = Inr (selected, vinvalue)"
| "CalcTxInput_loop amount (utxo # rest) selected vinvalue =
     (let selected' = selected @ [utxo]
      in case UTXO_Value utxo of
           (v, Some err) \<Rightarrow> Inl err
         | (v, None) \<Rightarrow>
             if amount < v then Inr (selected', v)
             else CalcTxInput_loop amount rest selected' v)"

text \<open>
  \<open>CalcTxInput\<close> returns the caller's slice as the call leaves it (first component) and
  the function's result (second component).
\<close>

definition CalcTxInput ::
  "float64 \<Rightarrow> UTXO list \<Rightarrow> UTXO list \<times> (error + (UTXO list \<times> float64))" where
  "CalcTxInput amount unspent =
     (let unspent' = sort_Sort utxoSorter_Less unspent
      in (unspent', CalcTxInput_loop amount unspent' [] 0))"

section \<open>neo: raw transactions\<close>

definition ClaimTransaction :: byte where
  "ClaimTransaction = 0x02"

definition ContractTransaction :: byte where
  "ContractTransaction = 0x80"

definition GasAssert :: string where
  "GasAssert = ''602c79718b16e442de58778e148d0b1084e3b2dffd5de6b7b16cee7969282de7''"

record RawTxAttr =
  Usage :: byte
  Data :: bytes

record RawTxInput =
  TxID :: string
  Vout :: "16 word"

record RawTxOutput =
  AssertID :: string
  Value :: float64
  Address :: string

record RawTxScript =
  StackScript :: bytes
  RedeemScript :: bytes

text \<open>
  \<open>XData\<close> is a closure in the source. The only one the package builds is that of
  \<open>NewRawClaimTx\<close>, which writes the claims of its transaction: \<open>Some claims\<close> stands for
  that closure over the claims, \<open>None\<close> for a nil \<open>XData\<close>.
\<close>

record RawTx =
  Type :: byte
  Version :: byte
  XData :: "RawTxInput list option"
  Attributes :: "RawTxAttr list"
  Inputs :: "RawTxInput list"
  Outputs :: "RawTxOutput list"
  Scripts :: "RawTxScript list"

definition NewRawTx :: "byte \<Rightarrow> RawTx" where
  "NewRawTx txType =
     \<lparr>Type = txType, Version = 0, XData = None, Attributes = [], Inputs = [],
      Outputs = [], Scripts = []\<rparr>"

definition NewRawClaimTx :: RawTx where
  "NewRawClaimTx = (NewRawTx ClaimTransaction)\<lparr>XData := Some []\<rparr>"

subsection \<open>encoding/hex and the input serialisation\<close>

definition hextable :: string where
  "hextable = ''0123456789abcdef''"

definition hex_EncodeToString :: "bytes \<Rightarrow> string" where
  "hex_EncodeToString src =
     concat (map (\<lambda>v. [hextable ! unat (drop_bit 4 v), hextable ! unat (v AND 0x0f)]) src)"

definition fromHexChar :: "char \<Rightarrow> byte option" where
  "fromHexChar c =
     (let n = (of_char c :: nat)
      in if 48 \<le> n \<and> n \<le> 57 then Some (of_nat (n - 48))
         else if 97 \<le> n \<and> n \<le> 102 then Some (of_nat (n - 97 + 10))
         else if 65 \<le> n \<and> n \<le> 70 then Some (of_nat (n - 65 + 10))
         else None)"

fun hex_DecodeString :: "string \<Rightarrow> error + bytes" where
  "hex_DecodeString [] = Inr []"
| "hex_DecodeString [p] =
     (case fromHexChar p of None \<Rightarrow> Inl (InvalidByteError p) | Some a \<Rightarrow> Inl ErrLength)"
| "hex_DecodeString (p # q # rest) =
     (case fromHexChar p of
        None \<Rightarrow> Inl (InvalidByteError p)
      | Some a \<Rightarrow>
          (case fromHexChar q of
             None \<Rightarrow> Inl (InvalidByteError q)
           | Some b \<Rightarrow>
               (case hex_DecodeString rest of
                  Inl err \<Rightarrow> Inl err
                | Inr dst \<Rightarrow> Inr ((push_bit 4 a OR b) # dst))))"

definition strings_TrimPrefix :: "string \<Rightarrow> string \<Rightarrow> string" where
  "strings_TrimPrefix s prefix =
     (if take (length prefix) s = prefix then drop (length prefix) s else s)"

text \<open>
  \<open>reverseBytes\<close> swaps in place from both ends: \<open>i\<close> runs up from 0 and \<open>j\<close> down from
  \<open>len(s) - 1\<close> (which is -1 on the empty slice) while \<open>i < j\<close>.
\<close>

function reverseBytes_loop :: "int \<Rightarrow> int \<Rightarrow> bytes \<Rightarrow> bytes" where
  "reverseBytes_loop i j s =
     (if i < j
      then reverseBytes_loop (i + 1) (j - 1) (s[nat i := s ! nat j, nat j := s ! nat i])
      else s)"
  by pat_completeness auto
termination
  by (relation "measure (\<lambda>(i, j, s). nat (j - i))") auto

definition reverseBytes :: "bytes \<Rightarrow> bytes" where
  "reverseBytes s = reverseBytes_loop 0 (int (length s) - 1) s"

definition LittleEndian_PutUint16 :: "16 word \<Rightarrow> bytes" where
  "LittleEndian_PutUint16 v = [ucast v, ucast (drop_bit 8 v)]"

text \<open>
  \<open>RawTxInput.WriteBytes\<close> on a \<open>bytes.Buffer\<close>, whose \<open>Write\<close> appends and never fails:
  the argument is the buffer's content before the call, the result its content after.
\<close>

definition RawTxInput_WriteBytes :: "RawTxInput \<Rightarrow> bytes \<Rightarrow> error + bytes" where
  "RawTxInput_WriteBytes input writer =
     (case hex_DecodeString (strings_TrimPrefix (TxID input) ''0x'') of
        Inl err \<Rightarrow> Inl err
      | Inr data \<Rightarrow>
          (let writer1 = writer @ reverseBytes data;
               data2 = LittleEndian_PutUint16 (Vout input)
           in Inr (writer1 @ data2)))"

subsection \<open>Building transactions\<close>

definition CreateSendAssertTx ::
  "string \<Rightarrow> string \<Rightarrow> string \<Rightarrow> float64 \<Rightarrow> UTXO list \<Rightarrow> UTXO list \<times> (error + RawTx)" where
  "CreateSendAssertTx assert from to amount unspent =
     (case CalcTxInput amount unspent of
        (unspent', Inl err) \<Rightarrow> (unspent', Inl err)
      | (unspent', Inr (sendUTXOs, totalAmount)) \<Rightarrow>
          if totalAmount < amount then (unspent', Inl ErrNoUTXO)
          else
            (let tx = NewRawTx ContractTransaction;
                 tx1 = tx\<lparr>Inputs := Inputs tx @
                         map (\<lambda>utxo. \<lparr>TxID = TransactionID utxo,
                                       Vout = word_of_int (VoutN utxo)\<rparr>) sendUTXOs\<rparr>;
                 tx2 = tx1\<lparr>Outputs := Outputs tx1 @
                         [\<lparr>AssertID = assert, Value = amount, Address = to\<rparr>]\<rparr>;
                 tx3 = (if amount < totalAmount
                        then tx2\<lparr>Outputs := Outputs tx2 @
                               [\<lparr>AssertID = assert,
                                 Value = float64_sub totalAmount amount,
                                 Address = from\<rparr>]\<rparr>
                        else tx2)
             in (unspent', Inr tx3)))"

definition CreateClaimTx ::
  "float64 \<Rightarrow> string \<Rightarrow> UTXO list \<Rightarrow> UTXO list \<times> (error + RawTx)" where
  "CreateClaimTx val address unspent =
     (let tx = NewRawClaimTx;
          unspent' = sort_Sort claimSorter_Less unspent;
          claims = map (\<lambda>utxo. \<lparr>TxID = TransactionID utxo,
                                  Vout = word_of_int (VoutN utxo)\<rparr>) unspent';
          tx1 = tx\<lparr>XData := Some claims\<rparr>;
          tx2 = tx1\<lparr>Outputs := Outputs tx1 @
                  [\<lparr>AssertID = GasAssert, Value = val, Address = address\<rparr>]\<rparr>
      in (unspent', Inr tx2))"

section \<open>keystore: libraries the codec calls\<close>

text \<open>
  The cryptographic primitives come from imported packages and from the package \<open>sha3\<close>;
  the codec only composes them. They are parameters of the model, and every theorem
  below holds for every choice of them.
  \<^item> \<open>scrypt_Key password salt N r p keyLen\<close> is \<open>scrypt.Key\<close>;
  \<^item> \<open>pbkdf2_Key password salt iter keyLen\<close> is \<open>pbkdf2.Key\<close> with \<open>sha256.New\<close>;
  \<^item> \<open>Keccak256 data\<close> is the sum of a \<open>sha3.NewKeccak256\<close> hasher after writing \<open>data\<close>;
  \<^item> \<open>aes_CTR key iv i\<close> is byte \<open>i\<close> of the key stream of AES in counter mode under
    \<open>key\<close> and \<open>iv\<close>, which \<open>XORKeyStream\<close> combines with the text.
\<close>

record crypto_lib =
  scrypt_Key :: "bytes \<Rightarrow> bytes \<Rightarrow> int \<Rightarrow> int \<Rightarrow> int \<Rightarrow> int \<Rightarrow> error + bytes"
  pbkdf2_Key :: "bytes \<Rightarrow> bytes \<Rightarrow> int \<Rightarrow> int \<Rightarrow> bytes"
  Keccak256 :: "bytes \<Rightarrow> bytes"
  aes_CTR :: "bytes \<Rightarrow> bytes \<Rightarrow> nat \<Rightarrow> byte"

text \<open>
  A stand-in library on which the model runs on concrete inputs. Its functions are not
  the real primitives; no theorem about the codec depends on it.
\<close>

definition toy_lib :: crypto_lib where
  "toy_lib =
     \<lparr>scrypt_Key = (\<lambda>password salt N r p keyLen.
        Inr (map (\<lambda>i. of_nat (i + length password)) [0..<nat keyLen])),
      pbkdf2_Key = (\<lambda>password salt iter keyLen.
        map (\<lambda>i. of_nat (i + length password)) [0..<nat keyLen]),
      Keccak256 = (\<lambda>data. take 32 (data @ replicate 32 0)),
      aes_CTR = (\<lambda>key iv i. of_nat (i + length key))\<rparr>"

text \<open>
  A JSON document is the tree its text denotes; \<open>json.Marshal\<close> and \<open>json.Unmarshal\<close> are
  modelled between Go values and trees. Names of object members are matched exactly, and
  of a repeated name the last member counts. A string is its text (a Go string that is
  not valid UTF-8, which \<open>json.Marshal\<close> would not write as it is, is not represented); a
  number is the rational its literal denotes; Go's \<open>int\<close> is \<open>int\<close>, without a bound.
  \<open>iface\<close> is a Go \<open>interface{}\<close> value of the kinds the codec meets: \<open>json.Unmarshal\<close>
  decodes a number to the nearest float64 and a string to a string; \<open>Write\<close> stores ints.
\<close>

datatype json =
    JNull
  | JBool bool
  | JNumber rat
  | JString string
  | JArray "json list"
  | JObject "(string \<times> json) list"

datatype iface =
    INil
  | IBool bool
  | IInt int
  | IFloat64 float64
  | IString string
  | ISlice "iface list"
  | IMap "(string \<times> iface) list"

primrec json_to_iface :: "json \<Rightarrow> iface" where
  "json_to_iface JNull = INil"
| "json_to_iface (JBool b) = IBool b"
| "json_to_iface (JNumber x) = IFloat64 (round64 x)"
| "json_to_iface (JString s) = IString s"
| "json_to_iface (JArray xs) = ISlice (map json_to_iface xs)"
| "json_to_iface (JObject kvs) = IMap (map (map_prod id json_to_iface) kvs)"

primrec iface_to_json :: "iface \<Rightarrow> json" where
  "iface_to_json INil = JNull"
| "iface_to_json (IBool b) = JBool b"
| "iface_to_json (IInt i) = JNumber (of_int i)"
| "iface_to_json (IFloat64 x) = JNumber x"
| "iface_to_json (IString s) = JString s"
| "iface_to_json (ISlice xs) = JArray (map iface_to_json xs)"
| "iface_to_json (IMap kvs) = JObject (map (map_prod id iface_to_json) kvs)"

definition object_get :: "(string \<times> 'a) list \<Rightarrow> string \<Rightarrow> 'a option" where
  "object_get kvs k = map_of (rev kvs) k"

text \<open>\<open>json.Unmarshal(data, &kv)\<close> for a \<open>map[string]interface{}\<close>.\<close>

definition json_Unmarshal_map :: "json \<Rightarrow> error + (string \<times> iface) list" where
  "json_Unmarshal_map data =
     (case data of
        JNull \<Rightarrow> Inr []
      | JObject kvs \<Rightarrow> Inr (map (map_prod id json_to_iface) kvs)
      | _ \<Rightarrow> Inl UnmarshalTypeError)"

text \<open>
  Decoding one member into a struct field: a missing or null member leaves the zero
  value, a member of another JSON kind is a type error.
\<close>

definition decode_string :: "(string \<times> json) list \<Rightarrow> string \<Rightarrow> error + string" where
  "decode_string obj k =
     (case object_get obj k of
        None \<Rightarrow> Inr []
      | Some JNull \<Rightarrow> Inr []
      | Some (JString s) \<Rightarrow> Inr s
      | Some _ \<Rightarrow> Inl UnmarshalTypeError)"

definition decode_int :: "(string \<times> json) list \<Rightarrow> string \<Rightarrow> error + int" where
  "decode_int obj k =
     (case object_get obj k of
        None \<Rightarrow> Inr 0
      | Some JNull \<Rightarrow> Inr 0
      | Some (JNumber x) \<Rightarrow> if of_int \<lfloor>x\<rfloor> = x then Inr \<lfloor>x\<rfloor> else Inl UnmarshalTypeError
      | Some _ \<Rightarrow> Inl UnmarshalTypeError)"

definition decode_object ::
  "(string \<times> json) list \<Rightarrow> string \<Rightarrow> error + (string \<times> json) list" where
  "decode_object obj k =
     (case object_get obj k of
        None \<Rightarrow> Inr []
      | Some JNull \<Rightarrow> Inr []
      | Some (JObject kvs) \<Rightarrow> Inr kvs
      | Some _ \<Rightarrow> Inl UnmarshalTypeError)"

subsection \<open>uuid\<close>

text \<open>
  \<open>uuid.UUID.String\<close> and \<open>uuid.Parse\<close> of the imported package \<open>pborman/uuid\<close>. A UUID is a
  byte slice; \<open>String\<close> of a slice that is not 16 bytes long is the empty string, and
  \<open>Parse\<close> of a string that is not a UUID is nil, here the empty list.
\<close>

definition uuid_String :: "bytes \<Rightarrow> string" where
  "uuid_String uuid =
     (if length uuid \<noteq> 16 then []
      else hex_EncodeToString (take 4 uuid) @ ''-'' @
           hex_EncodeToString (take 2 (drop 4 uuid)) @ ''-'' @
           hex_EncodeToString (take 2 (drop 6 uuid)) @ ''-'' @
           hex_EncodeToString (take 2 (drop 8 uuid)) @ ''-'' @
           hex_EncodeToString (drop 10 uuid))"

definition xtob :: "string \<Rightarrow> byte option" where
  "xtob x =
     (case (fromHexChar (x ! 0), fromHexChar (x ! 1)) of
        (Some b1, Some b2) \<Rightarrow> Some (push_bit 4 b1 OR b2)
      | _ \<Rightarrow> None)"

definition toLower_char :: "char \<Rightarrow> char" where
  "toLower_char c =
     (let n = (of_char c :: nat) in if 65 \<le> n \<and> n \<le> 90 then char_of (n + 32) else c)"

definition uuid_Parse :: "string \<Rightarrow> bytes" where
  "uuid_Parse s0 =
     (case (if length s0 = 36 + 9
            then (if map toLower_char (take 9 s0) \<noteq> ''urn:uuid:'' then None
                  else Some (drop 9 s0))
            else if length s0 \<noteq> 36 then None else Some s0) of
        None \<Rightarrow> []
      | Some s \<Rightarrow>
          if s ! 8 \<noteq> CHR ''-'' \<or> s ! 13 \<noteq> CHR ''-'' \<or> s ! 18 \<noteq> CHR ''-'' \<or>
             s ! 23 \<noteq> CHR ''-''
          then []
          else (case those (map (\<lambda>x. xtob (drop x s))
                       [0, 2, 4, 6, 9, 11, 14, 16, 19, 21, 24, 26, 28, 30, 32, 34]) of
                  None \<Rightarrow> []
                | Some uuid \<Rightarrow> uuid))"

section \<open>keystore: the Web3 keystore codec\<close>

text \<open>
  Modelled from the spec: the declarations of \<open>Key\<close>, \<open>encryptedKeyJSONV3\<close>, \<open>cryptoJSON\<close>
  and \<open>cipherparamsJSON\<close> are not among the sources. The records follow section 3 of the
  specification (Key: identifier, address, private scalar; KeystoreRecord: \<open>version\<close>,
  \<open>address\<close>, \<open>id\<close> and the \<open>crypto\<close> block with \<open>cipher\<close>, \<open>ciphertext\<close>, \<open>cipherparams.iv\<close>,
  \<open>kdf\<close>, \<open>kdfparams\<close>, \<open>mac\<close>), in the field order and with the field types the code of
  \<open>Write\<close> and \<open>decryptKeyV3\<close> uses them with.
\<close>

record Key =
  Key_ID :: bytes
  Key_Address :: string
  PrivateKey :: bytes

record cipherparamsJSON =
  IV :: string

record cryptoJSON =
  Cipher :: string
  CipherText :: string
  CipherParams :: cipherparamsJSON
  KDF :: string
  KDFParams :: "(string \<times> iface) list"
  MAC :: string

record encryptedKeyJSONV3 =
  EK_Address :: string
  EK_Crypto :: cryptoJSON
  EK_ID :: string
  EK_Version :: int

text \<open>\<open>json.Marshal\<close> of an \<open>encryptedKeyJSONV3\<close> and \<open>json.Unmarshal\<close> into one.\<close>

definition json_Marshal :: "encryptedKeyJSONV3 \<Rightarrow> json" where
  "json_Marshal k =
     JObject
       [(''address'', JString (EK_Address k)),
        (''crypto'', JObject
           [(''cipher'', JString (Cipher (EK_Crypto k))),
            (''ciphertext'', JString (CipherText (EK_Crypto k))),
            (''cipherparams'', JObject [(''iv'', JString (IV (CipherParams (EK_Crypto k))))]),
            (''kdf'', JString (KDF (EK_Crypto k))),
            (''kdfparams'',
               JObject (map (map_prod id iface_to_json) (KDFParams (EK_Crypto k)))),
            (''mac'', JString (MAC (EK_Crypto k)))]),
        (''id'', JString (EK_ID k)),
        (''version'', JNumber (of_int (EK_Version k)))]"

definition json_Unmarshal_cryptoJSON :: "(string \<times> json) list \<Rightarrow> error + cryptoJSON" where
  "json_Unmarshal_cryptoJSON obj =
     (case decode_string obj ''cipher'' of Inl err \<Rightarrow> Inl err | Inr cipher \<Rightarrow>
      case decode_string obj ''ciphertext'' of Inl err \<Rightarrow> Inl err | Inr ciphertext \<Rightarrow>
      case decode_object obj ''cipherparams'' of Inl err \<Rightarrow> Inl err | Inr cipherparams \<Rightarrow>
      case decode_string cipherparams ''iv'' of Inl err \<Rightarrow> Inl err | Inr iv \<Rightarrow>
      case decode_string obj ''kdf'' of Inl err \<Rightarrow> Inl err | Inr kdf \<Rightarrow>
      case decode_object obj ''kdfparams'' of Inl err \<Rightarrow> Inl err | Inr kdfparams \<Rightarrow>
      case decode_string obj ''mac'' of Inl err \<Rightarrow> Inl err | Inr mac \<Rightarrow>
        Inr \<lparr>Cipher = cipher, CipherText = ciphertext, CipherParams = \<lparr>IV = iv\<rparr>,
             KDF = kdf, KDFParams = map (map_prod id json_to_iface) kdfparams,
             MAC = mac\<rparr>)"

definition json_Unmarshal :: "json \<Rightarrow> error + encryptedKeyJSONV3" where
  "json_Unmarshal data =
     (case (case data of JNull \<Rightarrow> Inr [] | JObject kvs \<Rightarrow> Inr kvs
                       | _ \<Rightarrow> Inl UnmarshalTypeError) of
        Inl err \<Rightarrow> Inl err
      | Inr obj \<Rightarrow>
         (case decode_string obj ''address'' of Inl err \<Rightarrow> Inl err | Inr address \<Rightarrow>
          case decode_object obj ''crypto'' of Inl err \<Rightarrow> Inl err | Inr crypto \<Rightarrow>
          case json_Unmarshal_cryptoJSON crypto of Inl err \<Rightarrow> Inl err | Inr cj \<Rightarrow>
          case decode_string obj ''id'' of Inl err \<Rightarrow> Inl err | Inr id' \<Rightarrow>
          case decode_int obj ''version'' of Inl err \<Rightarrow> Inl err | Inr version \<Rightarrow>
            Inr \<lparr>EK_Address = address, EK_Crypto = cj, EK_ID = id',
                 EK_Version = version\<rparr>))"

definition lightScryptN :: int where "lightScryptN = 4096"
definition lightScryptP :: int where "lightScryptP = 6"
definition scryptR :: int where "scryptR = 8"
definition scryptDklen :: int where "scryptDklen = 32"
definition scryptKDFName :: string where "scryptKDFName = ''scrypt''"

definition bytes_of :: "string \<Rightarrow> bytes" where
  "bytes_of s = map of_char s"

text \<open>
  A slice expression \<open>s[lo:hi]\<close>; out of range it panics. (Slicing beyond the length into
  spare capacity is not modelled: the bound is the length.)
\<close>

definition slice :: "bytes \<Rightarrow> nat \<Rightarrow> nat \<Rightarrow> error + bytes" where
  "slice s lo hi =
     (if lo \<le> hi \<and> hi \<le> length s then Inr (take (hi - lo) (drop lo s))
      else Inl (Panic ''slice bounds out of range''))"

text \<open>
  \<open>GetEntropyCSPRNG\<close> reads \<open>n\<close> bytes from the random source and panics when the read
  fails. The source is the list of bytes it will still deliver; the result is the bytes
  read and the rest of the source.
\<close>

definition GetEntropyCSPRNG :: "nat \<Rightarrow> bytes \<Rightarrow> error + (bytes \<times> bytes)" where
  "GetEntropyCSPRNG n rnd =
     (if length rnd < n then Inl (Panic ''reading from crypto/rand failed'')
      else Inr (take n rnd, drop n rnd))"

definition aesCTRXOR :: "crypto_lib \<Rightarrow> bytes \<Rightarrow> bytes \<Rightarrow> bytes \<Rightarrow> error + bytes" where
  "aesCTRXOR L key inText iv =
     (if length key \<noteq> 16 \<and> length key \<noteq> 24 \<and> length key \<noteq> 32
      then Inl (KeySizeError (length key))
      else if length iv \<noteq> 16
      then Inl (Panic ''cipher.NewCTR: IV length must equal block size'')
      else Inr (map (\<lambda>(i, b). b XOR aes_CTR L key iv i) (zip [0..<length inText] inText)))"

definition ensureInt :: "iface option \<Rightarrow> error + int" where
  "ensureInt x =
     (case x of
        Some (IInt res) \<Rightarrow> Inr res
      | Some (IFloat64 f) \<Rightarrow> Inr (if 0 \<le> f then \<lfloor>f\<rfloor> else \<lceil>f\<rceil>)
      | _ \<Rightarrow> Inl (Panic ''interface conversion: interface {} is not float64''))"

definition type_assert_string :: "iface option \<Rightarrow> error + string" where
  "type_assert_string x =
     (case x of
        Some (IString s) \<Rightarrow> Inr s
      | _ \<Rightarrow> Inl (Panic ''interface conversion: interface {} is not string''))"

definition getKDFKey :: "crypto_lib \<Rightarrow> cryptoJSON \<Rightarrow> string \<Rightarrow> error + bytes" where
  "getKDFKey L cryptoJSON auth =
     (let authArray = bytes_of auth in
      case type_assert_string (object_get (KDFParams cryptoJSON) ''salt'') of
        Inl err \<Rightarrow> Inl err | Inr saltHex \<Rightarrow>
      case hex_DecodeString saltHex of Inl err \<Rightarrow> Inl err | Inr salt \<Rightarrow>
      case ensureInt (object_get (KDFParams cryptoJSON) ''dklen'') of
        Inl err \<Rightarrow> Inl err | Inr dkLen \<Rightarrow>
      if KDF cryptoJSON = scryptKDFName then
        (case ensureInt (object_get (KDFParams cryptoJSON) ''n'') of
           Inl err \<Rightarrow> Inl err | Inr n \<Rightarrow>
         case ensureInt (object_get (KDFParams cryptoJSON) ''r'') of
           Inl err \<Rightarrow> Inl err | Inr r \<Rightarrow>
         case ensureInt (object_get (KDFParams cryptoJSON) ''p'') of
           Inl err \<Rightarrow> Inl err | Inr p \<Rightarrow>
           scrypt_Key L authArray salt n r p dkLen)
      else if KDF cryptoJSON = ''pbkdf2'' then
        (case ensureInt (object_get (KDFParams cryptoJSON) ''c'') of
           Inl err \<Rightarrow> Inl err | Inr c \<Rightarrow>
         case type_assert_string (object_get (KDFParams cryptoJSON) ''prf'') of
           Inl err \<Rightarrow> Inl err | Inr prf \<Rightarrow>
           if prf \<noteq> ''hmac-sha256'' then Inl (ErrUnsupportedPRF prf)
           else Inr (pbkdf2_Key L authArray salt c dkLen))
      else Inl (ErrUnsupportedKDF (KDF cryptoJSON)))"

text \<open>
  The MAC both \<open>Write\<close> and \<open>decryptKeyV3\<close> compute: a Keccak-256 hasher is fed
  \<open>derivedKey[16:32]\<close> and then the cipher text.
\<close>

definition keccakMAC :: "crypto_lib \<Rightarrow> bytes \<Rightarrow> bytes \<Rightarrow> error + bytes" where
  "keccakMAC L derivedKey cipherText =
     (case slice derivedKey 16 32 of
        Inl err \<Rightarrow> Inl err
      | Inr macKey \<Rightarrow> Inr (Keccak256 L (macKey @ cipherText)))"

definition decryptKeyV3 ::
  "crypto_lib \<Rightarrow> encryptedKeyJSONV3 \<Rightarrow> string \<Rightarrow> error + (bytes \<times> bytes)" where
  "decryptKeyV3 L keyProtected password =
     (if Cipher (EK_Crypto keyProtected) \<noteq> ''aes-128-ctr''
      then Inl (ErrCipherNotSupported (Cipher (EK_Crypto keyProtected)))
      else
        let keyID = uuid_Parse (EK_ID keyProtected) in
        case hex_DecodeString (MAC (EK_Crypto keyProtected)) of
          Inl err \<Rightarrow> Inl err | Inr mac \<Rightarrow>
        case hex_DecodeString (IV (CipherParams (EK_Crypto keyProtected))) of
          Inl err \<Rightarrow> Inl err | Inr iv \<Rightarrow>
        case hex_DecodeString (CipherText (EK_Crypto keyProtected)) of
          Inl err \<Rightarrow> Inl err | Inr cipherText \<Rightarrow>
        case getKDFKey L (EK_Crypto keyProtected) password of
          Inl err \<Rightarrow> Inl err | Inr derivedKey \<Rightarrow>
        case keccakMAC L derivedKey cipherText of
          Inl err \<Rightarrow> Inl err | Inr calculatedMAC \<Rightarrow>
        if calculatedMAC \<noteq> mac
        then Inl (ErrDecrypt (hex_EncodeToString calculatedMAC) (hex_EncodeToString mac))
        else
          case slice derivedKey 0 16 of Inl err \<Rightarrow> Inl err | Inr encryptKey \<Rightarrow>
          case aesCTRXOR L encryptKey cipherText iv of
            Inl err \<Rightarrow> Inl err | Inr plainText \<Rightarrow>
            Inr (plainText, keyID))"

text \<open>
  \<open>Read\<close>. The version test reads the member \<open>version\<close> of the generic map with a type
  assertion to string: it fails the call when the member is a string other than \<open>"3"\<close>,
  and passes when the member is missing or of another kind.
\<close>

definition Read :: "crypto_lib \<Rightarrow> json \<Rightarrow> string \<Rightarrow> error + Key" where
  "Read L data password =
     (case json_Unmarshal_map data of
        Inl err \<Rightarrow> Inl err
      | Inr kv \<Rightarrow>
          if (case object_get kv ''version'' of
                Some (IString version) \<Rightarrow> version \<noteq> ''3''
              | _ \<Rightarrow> False)
          then Inl ErrUnsupportedVersion
          else
            case json_Unmarshal data of Inl err \<Rightarrow> Inl err | Inr k \<Rightarrow>
            case decryptKeyV3 L k password of
              Inl err \<Rightarrow> Inl err
            | Inr (keyBytes, keyID) \<Rightarrow>
                Inr \<lparr>Key_ID = keyID, Key_Address = EK_Address k, PrivateKey = keyBytes\<rparr>)"

text \<open>
  \<open>Write\<close>, with the random source as an argument and its rest in the result. The two
  \<open>if\<close> statements over \<open>attrs\<close> declare new variables \<open>scryptN\<close> and \<open>scryptP\<close> in their own
  scope: they can panic on a value that is not an int, and leave the outer variables at
  the light parameters. The block that pads the key declares a new \<open>keyBytes\<close> of 32 bytes,
  copies the key to its front and ends; the outer \<open>keyBytes\<close>, which is encrypted, is
  \<open>key.PrivateKey\<close>.
\<close>

definition attr_is_int :: "(string \<times> iface) list option \<Rightarrow> string \<Rightarrow> bool" where
  "attr_is_int attrs k =
     (case attrs of
        None \<Rightarrow> True
      | Some m \<Rightarrow>
          (case object_get m k of None \<Rightarrow> True | Some (IInt i) \<Rightarrow> True | Some _ \<Rightarrow> False))"

definition Write ::
  "crypto_lib \<Rightarrow> Key \<Rightarrow> string \<Rightarrow> (string \<times> iface) list option \<Rightarrow> bytes \<Rightarrow>
   error + (json \<times> bytes)" where
  "Write L key password attrs rnd =
     (let authArray = bytes_of password in
      case GetEntropyCSPRNG 32 rnd of Inl err \<Rightarrow> Inl err | Inr (salt, rnd1) \<Rightarrow>
      let scryptN = lightScryptN; scryptP = lightScryptP in
      if \<not> attr_is_int attrs ''ScryptN'' \<or> \<not> attr_is_int attrs ''ScryptP''
      then Inl (Panic ''interface conversion: interface {} is not int'')
      else
      case scrypt_Key L authArray salt scryptN scryptR scryptP scryptDklen of
        Inl err \<Rightarrow> Inl err | Inr derivedKey \<Rightarrow>
      case slice derivedKey 0 16 of Inl err \<Rightarrow> Inl err | Inr encryptKey \<Rightarrow>
      let keyBytes = PrivateKey key;
          innerKeyBytes =
            (if length (PrivateKey key) < 32
             then Some (PrivateKey key @ replicate (32 - length (PrivateKey key)) 0)
             else None)
      in
      case GetEntropyCSPRNG 16 rnd1 of Inl err \<Rightarrow> Inl err | Inr (iv, rnd2) \<Rightarrow>
      case aesCTRXOR L encryptKey keyBytes iv of Inl err \<Rightarrow> Inl err | Inr cipherText \<Rightarrow>
      case keccakMAC L derivedKey cipherText of Inl err \<Rightarrow> Inl err | Inr mac \<Rightarrow>
      let scryptParamsJSON =
            [(''n'', IInt scryptN), (''r'', IInt scryptR), (''p'', IInt scryptP),
             (''dklen'', IInt scryptDklen), (''salt'', IString (hex_EncodeToString salt))];
          cipherParamsJSON = \<lparr>IV = hex_EncodeToString iv\<rparr>;
          cryptoStruct =
            \<lparr>Cipher = ''aes-128-ctr'', CipherText = hex_EncodeToString cipherText,
             CipherParams = cipherParamsJSON, KDF = scryptKDFName,
             KDFParams = scryptParamsJSON, MAC = hex_EncodeToString mac\<rparr>;
          encryptedKey =
            \<lparr>EK_Address = Key_Address key, EK_Crypto = cryptoStruct,
             EK_ID = uuid_String (Key_ID key), EK_Version = 3\<rparr>
      in Inr (json_Marshal encryptedKey, rnd2))"

text \<open>A key and a random source for running the codec on concrete inputs.\<close>

definition example_Key :: Key where
  "example_Key =
     \<lparr>Key_ID = [0x01, 0x02, 0x03, 0x04, 0x05, 0x06, 0x07, 0x08,
                0x09, 0x0a, 0x0b, 0x0c, 0x0d, 0x0e, 0x0f, 0x10],
      Key_Address = ''00a329c0648769a73afac7f9381e08fb43dbea72'',
      PrivateKey = map of_nat [100..<131]\<rparr>"

definition example_rnd :: bytes where
  "example_rnd = map of_nat [0..<48]"

text \<open>
  The document \<open>Write\<close> produces for \<open>example_Key\<close> under the password \<open>pw\<close> from
  \<open>example_rnd\<close> with the stand-in library, with a given \<open>version\<close> member, and its cipher
  text.
\<close>

definition example_cipherText :: bytes where
  "example_cipherText =
     [0x74, 0x74, 0x74, 0x74, 0x7c, 0x7c, 0x7c, 0x7c, 0x74, 0x74, 0x74, 0x74,
      0x6c, 0x6c, 0x6c, 0x6c, 0x54, 0x54, 0x54, 0x54, 0x5c, 0x5c, 0x5c, 0x5c,
      0x54, 0x54, 0x54, 0x54, 0xac, 0xac, 0xac]"

definition example_document :: "json \<Rightarrow> json" where
  "example_document version =
     JObject
       [(''address'', JString ''00a329c0648769a73afac7f9381e08fb43dbea72''),
        (''crypto'', JObject
           [(''cipher'', JString ''aes-128-ctr''),
            (''ciphertext'',
               JString ''747474747c7c7c7c747474746c6c6c6c545454545c5c5c5c54545454acacac''),
            (''cipherparams'', JObject [(''iv'', JString ''202122232425262728292a2b2c2d2e2f'')]),
            (''kdf'', JString ''scrypt''),
            (''kdfparams'', JObject
               [(''n'', JNumber 4096), (''r'', JNumber 8), (''p'', JNumber 6),
                (''dklen'', JNumber 32),
                (''salt'', JString
                   ''000102030405060708090a0b0c0d0e0f101112131415161718191a1b1c1d1e1f'')]),
            (''mac'',
               JString ''12131415161718191a1b1c1d1e1f2021747474747c7c7c7c747474746c6c6c6c'')]),
        (''id'', JString ''01020304-0506-0708-090a-0b0c0d0e0f10''),
        (''version'', version)]"

text \<open>A PBKDF2 crypto block whose \<open>prf\<close> is not \<open>hmac-sha256\<close>.\<close>

definition example_pbkdf2 :: cryptoJSON where
  "example_pbkdf2 =
     \<lparr>Cipher = ''aes-128-ctr'', CipherText = ''00'',
      CipherParams = \<lparr>IV = ''202122232425262728292a2b2c2d2e2f''\<rparr>, KDF = ''pbkdf2'',
      KDFParams = [(''c'', IFloat64 262144), (''dklen'', IFloat64 32),
                   (''prf'', IString ''hmac-sha512''), (''salt'', IString ''00ff'')],
      MAC = ''00''\<rparr>"

text \<open>A keystore record on the PBKDF2 path whose stored MAC is not the MAC of its cipher text.\<close>

definition example_record :: encryptedKeyJSONV3 where
  "example_record =
     \<lparr>EK_Address = ''00a329c0648769a73afac7f9381e08fb43dbea72'',
      EK_Crypto =
        \<lparr>Cipher = ''aes-128-ctr'', CipherText = ''00'',
         CipherParams = \<lparr>IV = ''202122232425262728292a2b2c2d2e2f''\<rparr>, KDF = ''pbkdf2'',
         KDFParams = [(''c'', IFloat64 262144), (''dklen'', IFloat64 32),
                      (''prf'', IString ''hmac-sha256''), (''salt'', IString ''00ff'')],
         MAC = ''00''\<rparr>,
      EK_ID = ''01020304-0506-0708-090a-0b0c0d0e0f10'', EK_Version = 3\<rparr>"
section \<open>Lemmas: float64, sorting, byte reversal\<close>

lemma floor_log2_le:
  assumes "0 < x"
  shows "2 powi (floor_log2 x) \<le> x"
proof -
  obtain p q where pq: "quotient_of x = (p, q)" by (cases "quotient_of x")
  then have q: "0 < q" using quotient_of_denom_pos by blast
  have x: "x = of_int p / of_int q" using pq by (rule quotient_of_div)
  have p: "0 < p" using assms q x by (simp add: zero_less_divide_iff)
  define d where "d = bitlen p - bitlen q"
  have fl: "floor_log2 x = (if 2 powi d \<le> x then d else d - 1)"
    by (simp add: floor_log2_def pq d_def Let_def)
  show ?thesis
  proof (cases "2 powi d \<le> x")
    case True then show ?thesis using fl by simp
  next
    case False
    have bp: "2 ^ nat (bitlen p - 1) \<le> p" using bitlen_bounds[OF p] by simp
    have bq: "q < 2 ^ nat (bitlen q)" using bitlen_bounds[OF q] by simp
    have bp1: "1 \<le> bitlen p" using p by (simp add: bitlen_alt_def)
    have bq0: "0 \<le> bitlen q" by (rule bitlen_nonneg)
    have P: "(2::rat) powi (bitlen p - 1) \<le> of_int p"
    proof -
      have "(of_int (2 ^ nat (bitlen p - 1)) :: rat) \<le> of_int p" using bp by (simp only: of_int_le_iff)
      moreover have "(2::rat) powi (bitlen p - 1) = 2 ^ nat (bitlen p - 1)"
        using bp1 by (simp add: power_int_def)
      ultimately show ?thesis by simp
    qed
    have Q: "(of_int q :: rat) \<le> 2 powi (bitlen q)"
    proof -
      have "(of_int q :: rat) < of_int (2 ^ nat (bitlen q))" using bq by (simp only: of_int_less_iff)
      moreover have "(2::rat) powi (bitlen q) = 2 ^ nat (bitlen q)"
        using bq0 by (simp add: power_int_def)
      ultimately show ?thesis by simp
    qed
    have "(2::rat) powi (d - 1) = 2 powi (bitlen p - 1) / 2 powi (bitlen q)"
      by (simp add: d_def power_int_diff)
    also have "\<dots> \<le> of_int p / 2 powi (bitlen q)"
      using P by (simp add: divide_right_mono)
    also have "\<dots> \<le> of_int p / of_int q"
      using Q p q by (simp add: frac_le)
    finally show ?thesis using fl False x by simp
  qed
qed

lemma round_half_even_ge: "\<lfloor>q\<rfloor> \<le> round_half_even q"
  by (simp add: round_half_even_def Let_def)

lemma round64_pos:
  assumes "2 powi (- 1074) \<le> z"
  shows "0 < round64 z"
proof -
  have "(0::rat) < 2 powi (- 1074)" by simp
  then have z: "0 < z" using assms by linarith
  define e where "e = max (floor_log2 \<bar>z\<bar>) (- 1022)"
  define u :: rat where "u = 2 powi (e - 52)"
  have u: "0 < u" by (simp add: u_def)
  have r: "round64 z = of_int (round_half_even (z / u)) * u"
    using z by (simp add: round64_def e_def u_def Let_def)
  have "u \<le> z"
  proof (cases "- 1022 \<le> floor_log2 z")
    case True
    then have "e = floor_log2 z" using z by (simp add: e_def)
    then have "u \<le> 2 powi (floor_log2 z)" by (simp add: u_def power_int_increasing)
    then show ?thesis using floor_log2_le[OF z] by simp
  next
    case False
    then have "e = - 1022" using z by (simp add: e_def)
    then show ?thesis using assms by (simp add: u_def)
  qed
  then have "1 \<le> z / u" using u by (simp add: le_divide_eq)
  then have "1 \<le> \<lfloor>z / u\<rfloor>" by linarith
  then have "1 \<le> round_half_even (z / u)" using round_half_even_ge[of "z / u"] by linarith
  then have "0 < (of_int (round_half_even (z / u)) :: rat)" by simp
  then show ?thesis using u r by simp
qed

lemma is_float64_grid:
  assumes "is_float64 a"
  shows "\<exists>k::int. a = of_int k * 2 powi (- 1074)"
proof (cases "a = 0")
  case True then show ?thesis by (intro exI[of _ 0]) simp
next
  case False
  define e where "e = max (floor_log2 \<bar>a\<bar>) (- 1022)"
  define r where "r = round_half_even (a / 2 powi (e - 52))"
  have a: "a = of_int r * 2 powi (e - 52)"
    using assms False by (simp add: is_float64_def round64_def e_def r_def Let_def)
  have e: "- 1022 \<le> e" by (simp add: e_def)
  have "(2::rat) powi (e - 52) = 2 powi (e + 1022) * 2 powi (- 1074)"
    by (subst power_int_add[symmetric]) simp_all
  also have "(2::rat) powi (e + 1022) = of_int (2 ^ nat (e + 1022))"
    using e by (simp add: power_int_def)
  finally have "a = of_int (r * 2 ^ nat (e + 1022)) * 2 powi (- 1074)"
    using a by simp
  then show ?thesis by blast
qed

lemma float64_sub_pos:
  assumes "is_float64 a" "is_float64 b" "b < a"
  shows "0 < float64_sub a b"
proof -
  obtain k where k: "a = of_int k * 2 powi (- 1074)" using is_float64_grid[OF assms(1)] by blast
  obtain l where l: "b = of_int l * 2 powi (- 1074)" using is_float64_grid[OF assms(2)] by blast
  have g: "(0::rat) < 2 powi (- 1074)" by simp
  have "of_int l * (2::rat) powi (- 1074) < of_int k * 2 powi (- 1074)" using assms(3) k l by simp
  then have "(of_int l :: rat) < of_int k" using g by (simp only: mult_less_cancel_right_pos)
  then have "l + 1 \<le> k" by simp
  then have "(1::rat) \<le> of_int (k - l)" by simp
  then have "1 * (2::rat) powi (- 1074) \<le> of_int (k - l) * 2 powi (- 1074)"
    using g by (simp only: mult_le_cancel_right_pos)
  moreover have "a - b = of_int (k - l) * 2 powi (- 1074)" by (simp add: k l algebra_simps)
  ultimately have "2 powi (- 1074) \<le> a - b" by simp
  then show ?thesis unfolding float64_sub_def by (rule round64_pos)
qed

lemma is_float64_0: "is_float64 0" by (simp add: is_float64_def round64_def)

declare reverseBytes_loop.simps [simp del]

lemma length_reverseBytes_loop: "length (reverseBytes_loop i j s) = length s"
proof (induction i j s rule: reverseBytes_loop.induct)
  case (1 i j s)
  show ?case
  proof (cases "i < j")
    case True
    then show ?thesis using 1 by (subst reverseBytes_loop.simps) simp
  next
    case False
    then show ?thesis by (subst reverseBytes_loop.simps) simp
  qed
qed

lemma nth_reverseBytes_loop:
  "0 \<le> i \<Longrightarrow> j < int (length s) \<Longrightarrow> k < length s \<Longrightarrow>
   reverseBytes_loop i j s ! k =
     (if i \<le> int k \<and> int k \<le> j then s ! nat (i + j - int k) else s ! k)"
proof (induction i j s arbitrary: k rule: reverseBytes_loop.induct)
  case (1 i j s)
  show ?case
  proof (cases "i < j")
    case False
    then have "reverseBytes_loop i j s = s" by (subst reverseBytes_loop.simps) simp
    moreover have "i \<le> int k \<and> int k \<le> j \<Longrightarrow> nat (i + j - int k) = k"
      using False by linarith
    ultimately show ?thesis by auto
  next
    case True
    let ?s = "s[nat i := s ! nat j, nat j := s ! nat i]"
    have step: "reverseBytes_loop i j s = reverseBytes_loop (i + 1) (j - 1) ?s"
      using True by (subst reverseBytes_loop.simps) simp
    have ih: "reverseBytes_loop (i + 1) (j - 1) ?s ! k =
        (if i + 1 \<le> int k \<and> int k \<le> j - 1 then ?s ! nat (i + 1 + (j - 1) - int k) else ?s ! k)"
      using "1.IH"[OF True, of k] "1.prems" by simp
    show ?thesis
    proof (cases "i + 1 \<le> int k \<and> int k \<le> j - 1")
      case mid: True
      then have a: "nat (i + j - int k) \<noteq> nat i" "nat (i + j - int k) \<noteq> nat j"
        using "1.prems" by linarith+
      show ?thesis using mid a step ih by simp
    next
      case out: False
      consider "int k = i" | "int k = j" | "int k < i" | "j < int k"
        using out by linarith
      then show ?thesis
      proof cases
        case 1
        then have "k = nat i" by simp
        then show ?thesis using step ih out True "1.prems" by (simp add: nth_list_update)
      next
        case 2
        then have "k = nat j" by simp
        then show ?thesis using step ih out True "1.prems" by (simp add: nth_list_update)
      next
        case 3
        then have "k \<noteq> nat i" "k \<noteq> nat j" using True "1.prems" by linarith+
        then show ?thesis using step ih out 3 by simp
      next
        case 4
        then have "k \<noteq> nat i" "k \<noteq> nat j" using True "1.prems" by linarith+
        then show ?thesis using step ih out 4 by simp
      qed
    qed
  qed
qed

lemma reverseBytes_rev: "reverseBytes s = rev s"
proof (rule nth_equalityI)
  show "length (reverseBytes s) = length (rev s)"
    by (simp add: reverseBytes_def length_reverseBytes_loop)
next
  fix k assume "k < length (reverseBytes s)"
  then have k: "k < length s" by (simp add: reverseBytes_def length_reverseBytes_loop)
  then have "reverseBytes s ! k = s ! nat (int (length s) - 1 - int k)"
    unfolding reverseBytes_def by (subst nth_reverseBytes_loop) auto
  also have "nat (int (length s) - 1 - int k) = length s - Suc k" using k by linarith
  finally show "reverseBytes s ! k = rev s ! k" using k by (simp add: rev_nth)
qed

lemma mset_sort_insert: "mset (sort_insert lt x ys) = add_mset x (mset ys)"
  by (induction ys) auto

lemma mset_sort_foldl:
  "mset (foldl (\<lambda>left x. sort_insert lt x left) acc xs) = mset acc + mset xs"
  by (induction xs arbitrary: acc) (auto simp: mset_sort_insert)

lemma mset_sort_Sort: "mset (sort_Sort lt xs) = mset xs"
  by (simp add: sort_Sort_def mset_sort_foldl)

lemma set_sort_insert: "set (sort_insert lt x ys) = insert x (set ys)"
  by (induction ys) auto

lemma sorted_sort_insert:
  fixes f :: "'a \<Rightarrow> 'b::linorder"
  shows "sorted (rev (map f ys)) \<Longrightarrow>
         sorted (rev (map f (sort_insert (\<lambda>a b. f a < f b) x ys)))"
  by (induction ys) (auto simp: set_sort_insert sorted_append)

lemma sorted_sort_foldl:
  fixes f :: "'a \<Rightarrow> 'b::linorder"
  shows "sorted (rev (map f acc)) \<Longrightarrow>
         sorted (rev (map f (foldl (\<lambda>left x. sort_insert (\<lambda>a b. f a < f b) x left) acc xs)))"
  by (induction xs arbitrary: acc) (auto simp: sorted_sort_insert)

lemma sorted_sort_Sort:
  fixes f :: "'a \<Rightarrow> 'b::linorder"
  shows "sorted (map f (sort_Sort (\<lambda>a b. f a < f b) xs))"
  using sorted_sort_foldl[of f "[]" xs] by (simp add: sort_Sort_def rev_map)

lemma sort_insert_sorted_id:
  fixes f :: "'a \<Rightarrow> 'b::linorder"
  shows "\<forall>y\<in>set ys. f y \<le> f x \<Longrightarrow> sort_insert (\<lambda>a b. f a < f b) x ys = x # ys"
  by (cases ys) auto

lemma sort_foldl_sorted_id:
  fixes f :: "'a \<Rightarrow> 'b::linorder"
  shows "sorted (map f (rev acc @ xs)) \<Longrightarrow>
         foldl (\<lambda>left x. sort_insert (\<lambda>a b. f a < f b) x left) acc xs = rev xs @ acc"
proof (induction xs arbitrary: acc)
  case Nil then show ?case by simp
next
  case (Cons x xs)
  have "\<forall>y\<in>set acc. f y \<le> f x" using Cons.prems by (auto simp: sorted_append)
  then have "sort_insert (\<lambda>a b. f a < f b) x acc = x # acc" by (rule sort_insert_sorted_id)
  then show ?case using Cons.IH[of "x # acc"] Cons.prems by simp
qed

lemma sort_Sort_sorted_id:
  fixes f :: "'a \<Rightarrow> 'b::linorder"
  shows "sorted (map f xs) \<Longrightarrow> sort_Sort (\<lambda>a b. f a < f b) xs = xs"
  using sort_foldl_sorted_id[of f "[]" xs] by (simp add: sort_Sort_def)

lemma utxoSorter_Less_key:
  "utxoSorter_Less = (\<lambda>a b. fst (UTXO_Value a) < fst (UTXO_Value b))"
  by (intro ext) (simp add: utxoSorter_Less_def)

lemma claimSorter_Less_key: "claimSorter_Less = (\<lambda>a b. SpentBlock a < SpentBlock b)"
  by (intro ext) (simp add: claimSorter_Less_def)

lemma CalcTxInput_loop_total:
  "CalcTxInput_loop amount xs sel v0 = Inr (sel', tot) \<Longrightarrow>
   tot = v0 \<or> tot \<in> (\<lambda>u. fst (UTXO_Value u)) ` set xs"
proof (induction xs arbitrary: sel v0)
  case Nil then show ?case by simp
next
  case (Cons x xs)
  obtain v e where ve: "UTXO_Value x = (v, e)" by (cases "UTXO_Value x")
  show ?case
  proof (cases e)
    case (Some err) then show ?thesis using Cons.prems ve by (simp add: Let_def)
  next
    case None
    show ?thesis
    proof (cases "amount < v")
      case True then show ?thesis using Cons.prems ve None by (auto simp: Let_def)
    next
      case False
      then have "CalcTxInput_loop amount xs (sel @ [x]) v = Inr (sel', tot)"
        using Cons.prems ve None by (simp add: Let_def)
      from Cons.IH[OF this] show ?thesis using ve by force
    qed
  qed
qed

lemma CalcTxInput_total_float64:
  assumes "snd (CalcTxInput amount unspent) = Inr (sel, tot)"
      and "\<forall>u\<in>set unspent. is_float64 (fst (UTXO_Value u))"
  shows "is_float64 tot"
proof -
  let ?s = "sort_Sort utxoSorter_Less unspent"
  have "CalcTxInput_loop amount ?s [] 0 = Inr (sel, tot)"
    using assms(1) by (simp add: CalcTxInput_def Let_def)
  then have "tot = 0 \<or> tot \<in> (\<lambda>u. fst (UTXO_Value u)) ` set ?s"
    by (rule CalcTxInput_loop_total)
  moreover have "set ?s = set unspent" using mset_sort_Sort[of utxoSorter_Less unspent] by (metis set_mset_mset)
  ultimately show ?thesis using assms(2) is_float64_0 by auto
qed

lemma is_float64_1: "is_float64 1" by code_simp

lemma is_float64_65: "is_float64 (round64 (6/5))" by code_simp

lemma one_less_65: "1 < round64 (6 / 5)" by code_simp

lemma hex_DecodeString_txid_example:
  "hex_DecodeString (strings_TrimPrefix
      ''0x0000000000000000000000000000000000000000000000000000000000000001'' ''0x'') =
   Inr (replicate 31 0 @ [1])"
  by code_simp


lemma CalcTxInput_loop_prefix:
  "CalcTxInput_loop amount xs acc v0 = Inr (sel, tot) \<Longrightarrow>
   \<exists>k. k \<le> length xs \<and> sel = acc @ take k xs \<and>
       (k = 0 \<longrightarrow> tot = v0) \<and>
       (0 < k \<longrightarrow> tot = fst (UTXO_Value (xs ! (k - 1)))) \<and>
       (\<forall>i<k - 1. \<not> amount < fst (UTXO_Value (xs ! i))) \<and>
       (k < length xs \<longrightarrow> amount < tot)"
proof (induction xs arbitrary: acc v0)
  case Nil
  then show ?case by simp
next
  case (Cons x xs)
  obtain v e where ve: "UTXO_Value x = (v, e)" by (cases "UTXO_Value x")
  show ?case
  proof (cases e)
    case (Some err)
    then show ?thesis using Cons.prems ve by (simp add: Let_def)
  next
    case None
    show ?thesis
    proof (cases "amount < v")
      case True
      then have "sel = acc @ [x]" "tot = v" using Cons.prems ve None by (simp_all add: Let_def)
      then show ?thesis using ve True by (intro exI[of _ 1]) simp
    next
      case False
      then have "CalcTxInput_loop amount xs (acc @ [x]) v = Inr (sel, tot)"
        using Cons.prems ve None by (simp add: Let_def)
      from Cons.IH[OF this] obtain k where k:
        "k \<le> length xs" "sel = (acc @ [x]) @ take k xs" "k = 0 \<longrightarrow> tot = v"
        "0 < k \<longrightarrow> tot = fst (UTXO_Value (xs ! (k - 1)))"
        "\<forall>i<k - 1. \<not> amount < fst (UTXO_Value (xs ! i))"
        "k < length xs \<longrightarrow> amount < tot"
        by blast
      have a: "\<forall>i<k. \<not> amount < fst (UTXO_Value ((x # xs) ! i))"
      proof (intro allI impI)
        fix i assume i: "i < k"
        show "\<not> amount < fst (UTXO_Value ((x # xs) ! i))"
        proof (cases i)
          case 0 then show ?thesis using False ve by simp
        next
          case (Suc j)
          then have "j < k - 1" using i by simp
          then show ?thesis using k(5) Suc by simp
        qed
      qed
      have b: "tot = fst (UTXO_Value ((x # xs) ! k))"
      proof (cases k)
        case 0 then show ?thesis using k(3) ve by simp
      next
        case (Suc j) then show ?thesis using k(4) by simp
      qed
      show ?thesis
        using k(1,2,6) a b by (intro exI[of _ "Suc k"]) simp
    qed
  qed
qed

section \<open>Lemmas: hexadecimal text, UUID text\<close>

lemma fromHexChar_hextable_all:
  "\<forall>n\<in>set [0..<16]. fromHexChar (hextable ! n) = Some (of_nat n)"
  by code_simp

lemma fromHexChar_hextable: "n < 16 \<Longrightarrow> fromHexChar (hextable ! n) = Some (of_nat n)"
  using fromHexChar_hextable_all by simp

lemma unat_hi_nibble: "unat (drop_bit 4 (v::byte)) < 16"
proof -
  have "unat v < 256" using unsigned_less[of v, where ?'a=nat] by simp
  then show ?thesis by (simp add: drop_bit_eq_div unat_div)
qed

lemma unat_lo_nibble: "unat ((v::byte) AND 0x0f) < 16"
proof -
  have "unat (v AND 15) \<le> unat (15 :: byte)"
    by (rule word_and_le1 [THEN word_le_nat_alt [THEN iffD1]])
  then show ?thesis by simp
qed

lemma nibbles_ident: "push_bit 4 (drop_bit 4 v) OR (v AND 0x0f) = (v::byte)"
proof -
  have m: "(0x0f :: byte) = mask 4" by (simp add: mask_eq_exp_minus_1)
  show ?thesis unfolding m
    by (rule bit_word_eqI) (auto simp: bit_simps)
qed

lemma hex_roundtrip: "hex_DecodeString (hex_EncodeToString bs) = Inr bs"
proof (induction bs)
  case Nil then show ?case by (simp add: hex_EncodeToString_def)
next
  case (Cons v bs)
  have e: "hex_EncodeToString (v # bs) =
     hextable ! unat (drop_bit 4 v) # hextable ! unat (v AND 0x0f) # hex_EncodeToString bs"
    by (simp add: hex_EncodeToString_def)
  show ?case
    unfolding e
    using Cons.IH
    by (simp add: fromHexChar_hextable unat_hi_nibble unat_lo_nibble nibbles_ident)
qed

lemma length_hex_EncodeToString: "length (hex_EncodeToString bs) = 2 * length bs"
  by (induction bs) (simp_all add: hex_EncodeToString_def)

lemma hex_EncodeToString_Cons:
  "hex_EncodeToString (v # bs) =
     hextable ! unat (drop_bit 4 v) # hextable ! unat (v AND 0x0f) # hex_EncodeToString bs"
  by (simp add: hex_EncodeToString_def)

lemma hex_EncodeToString_Nil: "hex_EncodeToString [] = []"
  by (simp add: hex_EncodeToString_def)

lemma xtob_hex:
  "xtob (hextable ! unat (drop_bit 4 v) # hextable ! unat (v AND 0x0f) # rest) = Some v"
  by (simp add: xtob_def fromHexChar_hextable unat_hi_nibble unat_lo_nibble nibbles_ident)

lemma hextable_not_dash_all: "\<forall>n\<in>set [0..<16]. hextable ! n \<noteq> CHR ''-''"
  by code_simp

lemma list16:
  assumes "length (u::'a list) = 16"
  obtains b0 b1 b2 b3 b4 b5 b6 b7 b8 b9 b10 b11 b12 b13 b14 b15
  where "u = [b0, b1, b2, b3, b4, b5, b6, b7, b8, b9, b10, b11, b12, b13, b14, b15]"
proof -
  have "u = map (\<lambda>i. u ! i) [0..<16]" using assms by (simp add: list_eq_iff_nth_eq)
  also have "[0..<16] = [0,1,2,3,4,5,6,7,8,9,10,11,12,13,14,15 :: nat]" by (simp add: upt_rec)
  finally show ?thesis using that by simp
qed

lemma uuid_roundtrip:
  assumes "length u = 16"
  shows "uuid_Parse (uuid_String u) = u"
proof -
  obtain b0 b1 b2 b3 b4 b5 b6 b7 b8 b9 b10 b11 b12 b13 b14 b15
    where u: "u = [b0, b1, b2, b3, b4, b5, b6, b7, b8, b9, b10, b11, b12, b13, b14, b15]"
    using assms by (rule list16)
  show ?thesis
    unfolding u
    by (simp add: uuid_String_def uuid_Parse_def hex_EncodeToString_Cons hex_EncodeToString_Nil
        xtob_hex)
qed


section \<open>Lemmas: the steps of Write and Read\<close>

lemma aesCTRXOR_Inr:
  "length key = 16 \<Longrightarrow> length iv = 16 \<Longrightarrow>
   aesCTRXOR L key inText iv =
     Inr (map (\<lambda>(i, b). b XOR aes_CTR L key iv i) (zip [0..<length inText] inText))"
  by (simp add: aesCTRXOR_def)

lemma aesCTRXOR_length:
  "aesCTRXOR L key inText iv = Inr outText \<Longrightarrow> length outText = length inText"
  by (auto simp: aesCTRXOR_def split: if_splits)

lemma aesCTRXOR_involution:
  assumes "aesCTRXOR L key inText iv = Inr outText"
  shows "aesCTRXOR L key outText iv = Inr inText"
proof -
  have k: "\<not> (length key \<noteq> 16 \<and> length key \<noteq> 24 \<and> length key \<noteq> 32)" "length iv = 16"
    using assms by (auto simp: aesCTRXOR_def split: if_splits)
  have out: "outText = map (\<lambda>(i, b). b XOR aes_CTR L key iv i) (zip [0..<length inText] inText)"
    using assms k by (simp add: aesCTRXOR_def)
  have len: "length outText = length inText" using out by simp
  have "map (\<lambda>(i, b). b XOR aes_CTR L key iv i) (zip [0..<length outText] outText) = inText"
  proof (rule nth_equalityI)
    show "length (map (\<lambda>(i, b). b XOR aes_CTR L key iv i) (zip [0..<length outText] outText)) =
          length inText" using len by simp
  next
    fix i assume "i < length (map (\<lambda>(i, b). b XOR aes_CTR L key iv i) (zip [0..<length outText] outText))"
    then have i: "i < length inText" using len by simp
    then have "outText ! i = inText ! i XOR aes_CTR L key iv i" using out by simp
    then show "map (\<lambda>(i, b). b XOR aes_CTR L key iv i) (zip [0..<length outText] outText) ! i =
               inText ! i"
      using i len by (simp add: xor.assoc)
  qed
  then show ?thesis using k by (simp add: aesCTRXOR_def)
qed

lemma round64_small_ints:
  "round64 3 = 3" "round64 4096 = 4096" "round64 8 = 8" "round64 6 = 6" "round64 32 = 32"
  by code_simp+

lemma GetEntropyCSPRNG_Inr:
  "n \<le> length rnd \<Longrightarrow> GetEntropyCSPRNG n rnd = Inr (take n rnd, drop n rnd)"
  by (simp add: GetEntropyCSPRNG_def)

lemma slice_Inr: "lo \<le> hi \<Longrightarrow> hi \<le> length s \<Longrightarrow> slice s lo hi = Inr (take (hi - lo) (drop lo s))"
  by (simp add: slice_def)

lemma keccakMAC_Inr:
  "32 \<le> length dk \<Longrightarrow> keccakMAC L dk ct = Inr (Keccak256 L (take 16 (drop 16 dk) @ ct))"
  by (simp add: keccakMAC_def slice_def)

lemma Write_Inr:
  assumes rnd: "48 \<le> length rnd"
      and attrs: "attr_is_int attrs ''ScryptN''" "attr_is_int attrs ''ScryptP''"
      and dk: "scrypt_Key L (bytes_of P) (take 32 rnd) lightScryptN scryptR lightScryptP scryptDklen = Inr dk"
      and len: "length dk = 32"
      and ct: "aesCTRXOR L (take 16 dk) (PrivateKey K) (take 16 (drop 32 rnd)) = Inr ct"
  shows "Write L K P attrs rnd =
     Inr (json_Marshal
       \<lparr>EK_Address = Key_Address K,
        EK_Crypto =
          \<lparr>Cipher = ''aes-128-ctr'', CipherText = hex_EncodeToString ct,
           CipherParams = \<lparr>IV = hex_EncodeToString (take 16 (drop 32 rnd))\<rparr>,
           KDF = ''scrypt'',
           KDFParams = [(''n'', IInt 4096), (''r'', IInt 8), (''p'', IInt 6),
             (''dklen'', IInt 32), (''salt'', IString (hex_EncodeToString (take 32 rnd)))],
           MAC = hex_EncodeToString (Keccak256 L (drop 16 dk @ ct))\<rparr>,
        EK_ID = uuid_String (Key_ID K), EK_Version = 3\<rparr>, drop 48 rnd)"
proof -
  have e1: "GetEntropyCSPRNG 32 rnd = Inr (take 32 rnd, drop 32 rnd)"
    using rnd by (simp add: GetEntropyCSPRNG_Inr)
  have e2: "GetEntropyCSPRNG 16 (drop 32 rnd) = Inr (take 16 (drop 32 rnd), drop 48 rnd)"
    using rnd by (simp add: GetEntropyCSPRNG_Inr)
  have s1: "slice dk 0 16 = Inr (take 16 dk)" using len by (simp add: slice_def)
  have m: "keccakMAC L dk ct = Inr (Keccak256 L (drop 16 dk @ ct))"
    using len by (simp add: keccakMAC_Inr)
  show ?thesis
    unfolding Write_def Let_def
    using attrs
    by (simp add: e1 e2 s1 ct m lightScryptN_def lightScryptP_def scryptR_def scryptDklen_def
        scryptKDFName_def
        dk[unfolded lightScryptN_def lightScryptP_def scryptR_def scryptDklen_def])
qed


lemma json_Unmarshal_written:
  "json_Unmarshal (json_Marshal
       \<lparr>EK_Address = addr,
        EK_Crypto =
          \<lparr>Cipher = ci, CipherText = ctx, CipherParams = \<lparr>IV = ivx\<rparr>, KDF = kdf,
           KDFParams = [(''n'', IInt n), (''r'', IInt r), (''p'', IInt p),
             (''dklen'', IInt dklen), (''salt'', IString saltx)],
           MAC = macx\<rparr>,
        EK_ID = idx, EK_Version = v\<rparr>) =
   Inr \<lparr>EK_Address = addr,
        EK_Crypto =
          \<lparr>Cipher = ci, CipherText = ctx, CipherParams = \<lparr>IV = ivx\<rparr>, KDF = kdf,
           KDFParams = [(''n'', IFloat64 (round64 (of_int n))),
             (''r'', IFloat64 (round64 (of_int r))), (''p'', IFloat64 (round64 (of_int p))),
             (''dklen'', IFloat64 (round64 (of_int dklen))), (''salt'', IString saltx)],
           MAC = macx\<rparr>,
        EK_ID = idx, EK_Version = v\<rparr>"
  by (simp add: json_Unmarshal_def json_Marshal_def json_Unmarshal_cryptoJSON_def
      decode_string_def decode_object_def decode_int_def object_get_def)

lemma version_check_written:
  "json_Unmarshal_map (json_Marshal k) = Inr kv \<Longrightarrow>
   object_get kv ''version'' = Some (IFloat64 (round64 (of_int (EK_Version k))))"
  by (auto simp: json_Unmarshal_map_def json_Marshal_def object_get_def)

lemma json_Unmarshal_map_written: "\<exists>kv. json_Unmarshal_map (json_Marshal k) = Inr kv"
  by (simp add: json_Unmarshal_map_def json_Marshal_def)

lemma getKDFKey_written:
  "getKDFKey L
      \<lparr>Cipher = ci, CipherText = ctx, CipherParams = cp, KDF = ''scrypt'',
       KDFParams = [(''n'', IFloat64 (round64 4096)),
         (''r'', IFloat64 (round64 8)), (''p'', IFloat64 (round64 6)),
         (''dklen'', IFloat64 (round64 32)), (''salt'', IString (hex_EncodeToString salt))],
       MAC = macx\<rparr> auth =
   scrypt_Key L (bytes_of auth) salt 4096 8 6 32"
  by (simp add: getKDFKey_def object_get_def type_assert_string_def ensureInt_def
      hex_roundtrip round64_small_ints scryptKDFName_def Let_def)

lemma decryptKeyV3_written:
  assumes dk2: "scrypt_Key L (bytes_of P2) salt 4096 8 6 32 = Inr dk2"
      and len2: "length dk2 = 32"
      and iv: "length iv = 16"
  shows "decryptKeyV3 L
     \<lparr>EK_Address = addr,
      EK_Crypto =
        \<lparr>Cipher = ''aes-128-ctr'', CipherText = hex_EncodeToString ct,
         CipherParams = \<lparr>IV = hex_EncodeToString iv\<rparr>, KDF = ''scrypt'',
         KDFParams = [(''n'', IFloat64 (round64 4096)),
           (''r'', IFloat64 (round64 8)), (''p'', IFloat64 (round64 6)),
           (''dklen'', IFloat64 (round64 32)), (''salt'', IString (hex_EncodeToString salt))],
         MAC = hex_EncodeToString mac\<rparr>,
      EK_ID = idx, EK_Version = v\<rparr> P2 =
    (if Keccak256 L (drop 16 dk2 @ ct) \<noteq> mac
     then Inl (ErrDecrypt (hex_EncodeToString (Keccak256 L (drop 16 dk2 @ ct)))
                 (hex_EncodeToString mac))
     else Inr (map (\<lambda>(i, b). b XOR aes_CTR L (take 16 dk2) iv i) (zip [0..<length ct] ct),
               uuid_Parse idx))"
proof -
  have m: "keccakMAC L dk2 ct = Inr (Keccak256 L (drop 16 dk2 @ ct))"
    using len2 by (simp add: keccakMAC_Inr)
  have s: "slice dk2 0 16 = Inr (take 16 dk2)" using len2 by (simp add: slice_def)
  have a: "aesCTRXOR L (take 16 dk2) ct iv =
     Inr (map (\<lambda>(i, b). b XOR aes_CTR L (take 16 dk2) iv i) (zip [0..<length ct] ct))"
    using len2 iv by (simp add: aesCTRXOR_Inr)
  show ?thesis
    unfolding decryptKeyV3_def Let_def
    by (simp add: hex_roundtrip getKDFKey_written dk2 m s a)
qed

lemma Read_written:
  assumes dk2: "scrypt_Key L (bytes_of P2) salt 4096 8 6 32 = Inr dk2"
      and len2: "length dk2 = 32"
      and iv: "length iv = 16"
  shows "Read L (json_Marshal
     \<lparr>EK_Address = addr,
      EK_Crypto =
        \<lparr>Cipher = ''aes-128-ctr'', CipherText = hex_EncodeToString ct,
         CipherParams = \<lparr>IV = hex_EncodeToString iv\<rparr>, KDF = ''scrypt'',
         KDFParams = [(''n'', IInt 4096), (''r'', IInt 8), (''p'', IInt 6),
           (''dklen'', IInt 32), (''salt'', IString (hex_EncodeToString salt))],
         MAC = hex_EncodeToString mac\<rparr>,
      EK_ID = idx, EK_Version = v\<rparr>) P2 =
    (if Keccak256 L (drop 16 dk2 @ ct) \<noteq> mac
     then Inl (ErrDecrypt (hex_EncodeToString (Keccak256 L (drop 16 dk2 @ ct)))
                 (hex_EncodeToString mac))
     else Inr \<lparr>Key_ID = uuid_Parse idx, Key_Address = addr,
               PrivateKey = map (\<lambda>(i, b). b XOR aes_CTR L (take 16 dk2) iv i)
                              (zip [0..<length ct] ct)\<rparr>)"
  (is "Read L (json_Marshal ?ek) P2 = ?rhs")
proof -
  obtain kv where kv: "json_Unmarshal_map (json_Marshal ?ek) = Inr kv"
    using json_Unmarshal_map_written by blast
  have ver: "object_get kv ''version'' = Some (IFloat64 (round64 (of_int (EK_Version ?ek))))"
    using kv by (rule version_check_written)
  have um: "json_Unmarshal (json_Marshal ?ek) =
    Inr \<lparr>EK_Address = addr,
      EK_Crypto =
        \<lparr>Cipher = ''aes-128-ctr'', CipherText = hex_EncodeToString ct,
         CipherParams = \<lparr>IV = hex_EncodeToString iv\<rparr>, KDF = ''scrypt'',
         KDFParams = [(''n'', IFloat64 (round64 4096)),
           (''r'', IFloat64 (round64 8)), (''p'', IFloat64 (round64 6)),
           (''dklen'', IFloat64 (round64 32)), (''salt'', IString (hex_EncodeToString salt))],
         MAC = hex_EncodeToString mac\<rparr>,
      EK_ID = idx, EK_Version = v\<rparr>"
    using json_Unmarshal_written[of addr "''aes-128-ctr''" "hex_EncodeToString ct"
        "hex_EncodeToString iv" "''scrypt''" 4096 8 6 32 "hex_EncodeToString salt"
        "hex_EncodeToString mac" idx v]
    by simp
  show ?thesis
    unfolding Read_def
    by (simp add: kv ver um decryptKeyV3_written[OF dk2 len2 iv])
qed


lemma toy_scrypt_pw:
  "scrypt_Key toy_lib (bytes_of ''pw'') (take 32 example_rnd) lightScryptN scryptR lightScryptP
     scryptDklen = Inr (map of_nat [2..<34])"
  by code_simp

lemma example_facts:
  "length (Key_ID example_Key) = 16" "48 \<le> length example_rnd"
  "attr_is_int None ''ScryptN''" "attr_is_int None ''ScryptP''"
  "length (map of_nat [2..<34] :: bytes) = 32"
  by code_simp+

lemma toy_scrypt_pwx:
  "scrypt_Key toy_lib (bytes_of ''pwx'') (take 32 example_rnd) lightScryptN scryptR lightScryptP
     scryptDklen = Inr (map of_nat [3..<35])"
  by code_simp

lemma example_facts_pwx: "length (map of_nat [3..<35] :: bytes) = 32"
  by code_simp

lemma toy_cipherText:
  "aesCTRXOR toy_lib (take 16 (map of_nat [2..<34])) (PrivateKey example_Key)
     (take 16 (drop 32 example_rnd)) = Inr example_cipherText"
  by code_simp

lemma toy_macs_differ:
  "Keccak256 toy_lib (drop 16 (map of_nat [3..<35]) @ example_cipherText) \<noteq>
   Keccak256 toy_lib (drop 16 (map of_nat [2..<34]) @ example_cipherText)"
  by code_simp

lemma toy_Write:
  "Write toy_lib example_Key ''pw'' None example_rnd = Inr (example_document (JNumber 3), [])"
  by code_simp

lemma example_Key_length: "length (PrivateKey example_Key) = 31"
  by code_simp

lemma example_pbkdf2_facts:
  "KDF example_pbkdf2 = ''pbkdf2''"
  "object_get (KDFParams example_pbkdf2) ''prf'' = Some (IString ''hmac-sha512'')"
  "object_get (KDFParams example_pbkdf2) ''salt'' = Some (IString ''00ff'')"
  "hex_DecodeString ''00ff'' = Inr [0x00, 0xff]"
  "ensureInt (object_get (KDFParams example_pbkdf2) ''dklen'') = Inr 32"
  "ensureInt (object_get (KDFParams example_pbkdf2) ''c'') = Inr 262144"
  by code_simp+

lemma map_of_map_prod: "map_of (map (map_prod id f) xs) k = map_option f (map_of xs k)"
  by (induction xs) auto

lemma object_get_map_prod:
  "object_get (map (map_prod id f) kvs) k = map_option f (object_get kvs k)"
  by (simp add: object_get_def rev_map map_of_map_prod)

lemma example_mismatch_facts:
  "Cipher (EK_Crypto example_record) = ''aes-128-ctr''"
  "hex_DecodeString (MAC (EK_Crypto example_record)) = Inr [0x00]"
  "hex_DecodeString (IV (CipherParams (EK_Crypto example_record))) =
     Inr (map of_nat [32..<48])"
  "hex_DecodeString (CipherText (EK_Crypto example_record)) = Inr [0x00]"
  "getKDFKey toy_lib (EK_Crypto example_record) ''pw'' = Inr (map of_nat [2..<34])"
  "32 \<le> length (map of_nat [2..<34] :: bytes)"
  "Keccak256 toy_lib (take 16 (drop 16 (map of_nat [2..<34])) @ [0x00]) \<noteq> [0x00]"
  by code_simp+
section \<open>Claims about the neo transaction code\<close>

text \<open>
  Claim C1. \<open>CalcTxInput\<close> is claimed to return, with the selected prefix of the sorted
  list, the cumulative sum of the selected values: total 1.2 for amount 1.0 and the outputs
  0.5 and 0.7. The loop assigns each output's value to \<open>vinvalue\<close> instead of adding it, so
  the total returned is the value of the last output selected. At the claim's own scenario
  both outputs are selected and the total returned is the float64 0.7, which is not the
  float64 1.2.
\<close>

theorem CalcTxInput_total_is_last_value:
  "snd (CalcTxInput 1 [UTXO_of ''t1'' 0 (1 / 2), UTXO_of ''t2'' 0 (round64 (7 / 10))]) =
     Inr ([UTXO_of ''t1'' 0 (1 / 2), UTXO_of ''t2'' 0 (round64 (7 / 10))], round64 (7 / 10)) \<and>
   round64 (7 / 10) \<noteq> round64 (6 / 5)"
  by code_simp

text \<open>
  Claim C6. \<open>CreateSendAssertTx\<close> with unspent outputs totalling 1.2 and a requested amount
  of 1.0 is claimed to succeed with a payment output and a change output. With the outputs
  0.5 and 0.7 of the scenario of C1, the total \<open>CalcTxInput\<close> returns is 0.7, which is less
  than the amount, and the call fails with \<open>ErrNoUTXO\<close>.
\<close>

theorem CreateSendAssertTx_two_inputs_ErrNoUTXO:
  "snd (CreateSendAssertTx ''asset'' ''from'' ''to'' 1
          [UTXO_of ''t1'' 0 (1 / 2), UTXO_of ''t2'' 0 (round64 (7 / 10))]) = Inl ErrNoUTXO"
  by code_simp

text \<open>
  Claim C7, as amended. \<open>CalcTxInput\<close> and \<open>CreateClaimTx\<close> do not leave the caller's list
  as it was: both sort it in place. After the call the list holds the same outputs as
  before, each as it was (equal as multisets), in ascending order of value for
  \<open>CalcTxInput\<close> and of \<open>SpentBlock\<close> for \<open>CreateClaimTx\<close>.
\<close>

theorem CalcTxInput_sorts_in_place:
  "mset (fst (CalcTxInput amount unspent)) = mset unspent \<and>
   sorted (map (\<lambda>u. fst (UTXO_Value u)) (fst (CalcTxInput amount unspent))) \<and>
   mset (fst (CreateClaimTx val address unspent)) = mset unspent \<and>
   sorted (map SpentBlock (fst (CreateClaimTx val address unspent)))"
  by (simp add: CalcTxInput_def CreateClaimTx_def Let_def mset_sort_Sort
      utxoSorter_Less_key claimSorter_Less_key sorted_sort_Sort)

theorem CalcTxInput_sorts_in_place_witness:
  "mset (fst (CalcTxInput 1 [UTXO_of ''t1'' 0 (round64 (7 / 10)), UTXO_of ''t2'' 0 (1 / 2)])) =
     mset [UTXO_of ''t1'' 0 (round64 (7 / 10)), UTXO_of ''t2'' 0 (1 / 2)] \<and>
   sorted (map (\<lambda>u. fst (UTXO_Value u))
     (fst (CalcTxInput 1 [UTXO_of ''t1'' 0 (round64 (7 / 10)), UTXO_of ''t2'' 0 (1 / 2)]))) \<and>
   mset (fst (CreateClaimTx 1 ''addr''
     [UTXO_of ''t1'' 0 (round64 (7 / 10)), UTXO_of ''t2'' 0 (1 / 2)])) =
     mset [UTXO_of ''t1'' 0 (round64 (7 / 10)), UTXO_of ''t2'' 0 (1 / 2)] \<and>
   sorted (map SpentBlock (fst (CreateClaimTx 1 ''addr''
     [UTXO_of ''t1'' 0 (round64 (7 / 10)), UTXO_of ''t2'' 0 (1 / 2)])))"
  by (rule CalcTxInput_sorts_in_place)

text \<open>
  The claim as stated fails: called on the outputs 0.7, 0.5 in this order, \<open>CalcTxInput\<close>
  leaves the caller's list in another order.
\<close>

theorem CalcTxInput_reorders_counterexample:
  "fst (CalcTxInput 1 [UTXO_of ''t1'' 0 (round64 (7 / 10)), UTXO_of ''t2'' 0 (1 / 2)]) \<noteq>
     [UTXO_of ''t1'' 0 (round64 (7 / 10)), UTXO_of ''t2'' 0 (1 / 2)]"
  by code_simp

text \<open>
  Claim C8. \<open>RawTxInput.WriteBytes\<close> appends 34 bytes for every input whose \<open>TxID\<close> is the
  hexadecimal text of a 32-byte id (with or without the prefix \<open>0x\<close>): the 32 id bytes in
  reversed order, then the output index as two bytes, low byte first. For the id
  \<open>0x00..01\<close> and index 5 these are the byte 01, 31 zero bytes, and 05 00 (the witness).
\<close>

theorem RawTxInput_WriteBytes_layout:
  assumes "hex_DecodeString (strings_TrimPrefix (TxID input) ''0x'') = Inr txid"
      and "length txid = 32"
  shows "RawTxInput_WriteBytes input writer =
           Inr (writer @ rev txid @ [ucast (Vout input), ucast (drop_bit 8 (Vout input))]) \<and>
         length (rev txid @ [ucast (Vout input) :: byte, ucast (drop_bit 8 (Vout input))]) = 34"
  using assms
  by (simp add: RawTxInput_WriteBytes_def reverseBytes_rev LittleEndian_PutUint16_def Let_def)

theorem RawTxInput_WriteBytes_layout_witness:
  "hex_DecodeString (strings_TrimPrefix
      ''0x0000000000000000000000000000000000000000000000000000000000000001'' ''0x'') =
     Inr (replicate 31 0 @ [1]) \<and>
   length (replicate 31 (0::byte) @ [1]) = 32 \<and>
   RawTxInput_WriteBytes
     \<lparr>TxID = ''0x0000000000000000000000000000000000000000000000000000000000000001'',
      Vout = 5\<rparr> [] =
     Inr ([1] @ replicate 31 0 @ [5, 0])"
proof -
  let ?input = "\<lparr>TxID = ''0x0000000000000000000000000000000000000000000000000000000000000001'',
      Vout = 5 :: 16 word\<rparr>"
  have h1: "hex_DecodeString (strings_TrimPrefix (TxID ?input) ''0x'') = Inr (replicate 31 0 @ [1])"
    using hex_DecodeString_txid_example by simp
  have h2: "length (replicate 31 (0::byte) @ [1]) = 32" by simp
  have "RawTxInput_WriteBytes ?input [] = Inr ([1] @ replicate 31 0 @ [5, 0])"
    using RawTxInput_WriteBytes_layout[OF h1 h2, of "[]"] by simp
  then show ?thesis using hex_DecodeString_txid_example h2 by simp
qed

text \<open>
  Claim C10. When \<open>CreateSendAssertTx\<close> succeeds, \<open>CalcTxInput\<close> has returned a total that
  is at least the amount. If the total equals the amount the transaction has exactly one
  output, the payment. It has two outputs exactly when the total is strictly greater than
  the amount, and then the second is the change output, whose value, the float64
  difference of total and amount, is greater than zero. The amount and the outputs'
  values are float64 values.
\<close>

theorem CreateSendAssertTx_outputs:
  assumes "CreateSendAssertTx assert from to amount unspent = (unspent', Inr tx)"
      and "is_float64 amount"
      and "\<forall>u\<in>set unspent. is_float64 (fst (UTXO_Value u))"
  shows "\<exists>sendUTXOs totalAmount.
           snd (CalcTxInput amount unspent) = Inr (sendUTXOs, totalAmount) \<and>
           amount \<le> totalAmount \<and>
           (totalAmount = amount \<longrightarrow>
              Outputs tx = [\<lparr>AssertID = assert, Value = amount, Address = to\<rparr>]) \<and>
           (length (Outputs tx) = 2 \<longleftrightarrow> amount < totalAmount) \<and>
           (amount < totalAmount \<longrightarrow>
              Outputs tx = [\<lparr>AssertID = assert, Value = amount, Address = to\<rparr>,
                            \<lparr>AssertID = assert, Value = float64_sub totalAmount amount,
                               Address = from\<rparr>] \<and>
              0 < float64_sub totalAmount amount)"
proof -
  obtain u' r where c: "CalcTxInput amount unspent = (u', r)" by (cases "CalcTxInput amount unspent")
  show ?thesis
  proof (cases r)
    case (Inl err)
    then show ?thesis using assms(1) c by (simp add: CreateSendAssertTx_def)
  next
    case (Inr st)
    obtain sendUTXOs totalAmount where st: "st = (sendUTXOs, totalAmount)" by (cases st)
    have res: "snd (CalcTxInput amount unspent) = Inr (sendUTXOs, totalAmount)"
      using c Inr st by simp
    have fl: "is_float64 totalAmount" using CalcTxInput_total_float64[OF res assms(3)] .
    have ge: "\<not> totalAmount < amount"
      using assms(1) c Inr st by (auto simp: CreateSendAssertTx_def split: if_splits)
    show ?thesis
    proof (cases "amount < totalAmount")
      case True
      have pos: "0 < float64_sub totalAmount amount"
        using float64_sub_pos[OF fl assms(2) True] .
      have "Outputs tx = [\<lparr>AssertID = assert, Value = amount, Address = to\<rparr>,
                            \<lparr>AssertID = assert, Value = float64_sub totalAmount amount,
                               Address = from\<rparr>]"
        using assms(1) c Inr st True ge
        by (auto simp: CreateSendAssertTx_def NewRawTx_def Let_def)
      then show ?thesis using res True pos by auto
    next
      case False
      have "Outputs tx = [\<lparr>AssertID = assert, Value = amount, Address = to\<rparr>]"
        using assms(1) c Inr st False ge
        by (auto simp: CreateSendAssertTx_def NewRawTx_def Let_def)
      then show ?thesis using res False ge by auto
    qed
  qed
qed

theorem CreateSendAssertTx_outputs_witness:
  "CreateSendAssertTx ''asset'' ''from'' ''to'' 1 [UTXO_of ''t1'' 0 (round64 (6 / 5))] =
     ([UTXO_of ''t1'' 0 (round64 (6 / 5))],
      Inr \<lparr>Type = 0x80, Version = 0, XData = None, Attributes = [],
           Inputs = [\<lparr>TxID = ''t1'', Vout = 0\<rparr>],
           Outputs = [\<lparr>AssertID = ''asset'', Value = 1, Address = ''to''\<rparr>,
                      \<lparr>AssertID = ''asset'', Value = float64_sub (round64 (6 / 5)) 1,
                         Address = ''from''\<rparr>],
           Scripts = []\<rparr>) \<and>
   is_float64 1 \<and> is_float64 (fst (UTXO_Value (UTXO_of ''t1'' 0 (round64 (6 / 5))))) \<and>
   (\<exists>sendUTXOs totalAmount.
      snd (CalcTxInput 1 [UTXO_of ''t1'' 0 (round64 (6 / 5))]) = Inr (sendUTXOs, totalAmount) \<and>
      1 < totalAmount \<and> 0 < float64_sub totalAmount 1)"
proof -
  let ?u = "UTXO_of ''t1'' 0 (round64 (6 / 5))"
  let ?tx = "\<lparr>Type = 0x80, Version = 0, XData = None, Attributes = [],
           Inputs = [\<lparr>TxID = ''t1'', Vout = 0\<rparr>],
           Outputs = [\<lparr>AssertID = ''asset'', Value = 1, Address = ''to''\<rparr>,
                      \<lparr>AssertID = ''asset'', Value = float64_sub (round64 (6 / 5)) 1,
                         Address = ''from''\<rparr>],
           Scripts = []\<rparr>"
  have c: "snd (CalcTxInput 1 [?u]) = Inr ([?u], round64 (6 / 5))"
    using one_less_65 by (simp add: CalcTxInput_def sort_Sort_def UTXO_of_def UTXO_Value_def Let_def)
  have h1: "CreateSendAssertTx ''asset'' ''from'' ''to'' 1 [?u] = ([?u], Inr ?tx)"
    using one_less_65 by (simp add: CreateSendAssertTx_def CalcTxInput_def sort_Sort_def UTXO_of_def
        UTXO_Value_def NewRawTx_def ContractTransaction_def Let_def)
  have h2: "is_float64 1" by (rule is_float64_1)
  have h3': "is_float64 (fst (UTXO_Value ?u))"
    using is_float64_65 by (simp add: UTXO_of_def UTXO_Value_def)
  then have h3: "\<forall>u\<in>set [?u]. is_float64 (fst (UTXO_Value u))" by simp
  from CreateSendAssertTx_outputs[OF h1 h2 h3]
  obtain s t where st: "snd (CalcTxInput 1 [?u]) = Inr (s, t)"
      and imp: "1 < t \<longrightarrow> Outputs ?tx = [\<lparr>AssertID = ''asset'', Value = 1, Address = ''to''\<rparr>,
                            \<lparr>AssertID = ''asset'', Value = float64_sub t 1,
                               Address = ''from''\<rparr>] \<and> 0 < float64_sub t 1"
    by blast
  have t: "t = round64 (6 / 5)" using st c by simp
  then have "1 < t" using one_less_65 by simp
  with imp have "0 < float64_sub t 1" by blast
  then show ?thesis using h1 h2 h3' st \<open>1 < t\<close> by blast
qed

section \<open>Claims about the keystore codec\<close>

text \<open>
  Claim C2. Reading back what \<open>Write\<close> produced for a key \<open>K\<close> under a password \<open>P\<close>, with
  the same password, yields \<open>K\<close>: the same id, address and private key bytes. The key's id
  is a UUID of 16 bytes; the random source delivers the 48 bytes \<open>Write\<close> reads (32 of salt
  and 16 of IV), the attributes \<open>ScryptN\<close> and \<open>ScryptP\<close> are ints where present, and
  \<open>scrypt.Key\<close> returns its 32-byte key. Then \<open>Write\<close> returns a document, and \<open>Read\<close> of that
  document returns \<open>K\<close>.
\<close>

theorem Read_Write_roundtrip:
  assumes id: "length (Key_ID K) = 16"
      and rnd: "48 \<le> length rnd"
      and attrs: "attr_is_int attrs ''ScryptN''" "attr_is_int attrs ''ScryptP''"
      and dk: "scrypt_Key L (bytes_of P) (take 32 rnd) lightScryptN scryptR lightScryptP
                 scryptDklen = Inr dk"
      and len: "length dk = 32"
  shows "\<exists>doc. Write L K P attrs rnd = Inr (doc, drop 48 rnd) \<and> Read L doc P = Inr K"
proof -
  let ?iv = "take 16 (drop 32 rnd)"
  let ?salt = "take 32 rnd"
  have iv: "length ?iv = 16" using rnd by simp
  have k16: "length (take 16 dk) = 16" using len by simp
  define ct where "ct = map (\<lambda>(i, b). b XOR aes_CTR L (take 16 dk) ?iv i)
                          (zip [0..<length (PrivateKey K)] (PrivateKey K))"
  have ct: "aesCTRXOR L (take 16 dk) (PrivateKey K) ?iv = Inr ct"
    unfolding ct_def using k16 iv by (rule aesCTRXOR_Inr)
  have dec: "aesCTRXOR L (take 16 dk) ct ?iv = Inr (PrivateKey K)"
    using ct by (rule aesCTRXOR_involution)
  then have dec': "map (\<lambda>(i, b). b XOR aes_CTR L (take 16 dk) ?iv i) (zip [0..<length ct] ct) =
      PrivateKey K"
    using k16 iv by (simp add: aesCTRXOR_Inr)
  have dk': "scrypt_Key L (bytes_of P) ?salt 4096 8 6 32 = Inr dk"
    using dk by (simp add: lightScryptN_def lightScryptP_def scryptR_def scryptDklen_def)
  note W = Write_Inr[OF rnd attrs dk len ct]
  have R: "Read L (fst (projr (Write L K P attrs rnd))) P = Inr K"
    unfolding W
    by (simp add: Read_written[OF dk' len iv] dec' uuid_roundtrip[OF id])
  show ?thesis using W R by simp
qed

theorem Read_Write_roundtrip_witness:
  "length (Key_ID example_Key) = 16 \<and> 48 \<le> length example_rnd \<and>
   attr_is_int None ''ScryptN'' \<and> attr_is_int None ''ScryptP'' \<and>
   scrypt_Key toy_lib (bytes_of ''pw'') (take 32 example_rnd) lightScryptN scryptR lightScryptP
     scryptDklen = Inr (map of_nat [2..<34]) \<and>
   length (map of_nat [2..<34] :: bytes) = 32 \<and>
   (\<exists>doc. Write toy_lib example_Key ''pw'' None example_rnd = Inr (doc, drop 48 example_rnd) \<and>
          Read toy_lib doc ''pw'' = Inr example_Key)"
  using Read_Write_roundtrip[OF example_facts(1-4) toy_scrypt_pw example_facts(5)]
    example_facts toy_scrypt_pw
  by blast

text \<open>
  Claim C4. The plain text \<open>Write\<close> encrypts is claimed to be 32 bytes always, a shorter
  private key being padded with zero bytes. The padded copy is a variable of the inner
  block only; what is encrypted is the key as the caller gave it. Whenever \<open>Write\<close>
  returns a document, its cipher text, and so the plain text, is as long as the key:
  31 bytes for the 31-byte key of the witness.
\<close>

theorem Write_encrypts_key_as_given:
  assumes "Write L K P attrs rnd = Inr (doc, rnd')"
  shows "\<exists>ek ct. doc = json_Marshal ek \<and>
           hex_DecodeString (CipherText (EK_Crypto ek)) = Inr ct \<and>
           length ct = length (PrivateKey K)"
proof -
  from assms obtain ek cipherText encryptKey iv where
      doc: "doc = json_Marshal ek"
      and c: "CipherText (EK_Crypto ek) = hex_EncodeToString cipherText"
      and a: "aesCTRXOR L encryptKey (PrivateKey K) iv = Inr cipherText"
    unfolding Write_def Let_def
    by (auto split: sum.splits if_splits prod.splits)
  have "length cipherText = length (PrivateKey K)" using a by (rule aesCTRXOR_length)
  then show ?thesis using doc c by (auto simp: hex_roundtrip)
qed

theorem Write_encrypts_key_as_given_witness:
  "Write toy_lib example_Key ''pw'' None example_rnd = Inr (example_document (JNumber 3), []) \<and>
   length (PrivateKey example_Key) = 31 \<and>
   (\<exists>ek ct. example_document (JNumber 3) = json_Marshal ek \<and>
      hex_DecodeString (CipherText (EK_Crypto ek)) = Inr ct \<and> length ct = 31)"
  using Write_encrypts_key_as_given[OF toy_Write] toy_Write example_Key_length
  by simp

text \<open>
  Claim C5. \<open>Read\<close> is claimed to fail with the unsupported-version error for every
  document whose \<open>version\<close> is not 3. The test applies to a \<open>version\<close> that is a JSON
  string only. The document \<open>Write\<close> produces, with its \<open>version\<close> changed to any other
  number \<open>v\<close>, is read without error and yields the key: with the number 4 in the
  witness.
\<close>

theorem Read_skips_numeric_version:
  assumes id16: "length (Key_ID K) = 16"
      and rnd: "48 \<le> length rnd"
      and attrs: "attr_is_int attrs ''ScryptN''" "attr_is_int attrs ''ScryptP''"
      and dk: "scrypt_Key L (bytes_of P) (take 32 rnd) lightScryptN scryptR lightScryptP
                 scryptDklen = Inr dk"
      and len: "length dk = 32"
  shows "\<exists>ek. Write L K P attrs rnd = Inr (json_Marshal ek, drop 48 rnd) \<and>
           EK_Version ek = 3 \<and>
           (\<forall>v. Read L (json_Marshal (ek\<lparr>EK_Version := v\<rparr>)) P = Inr K)"
proof -
  let ?iv = "take 16 (drop 32 rnd)"
  have iv: "length ?iv = 16" using rnd by simp
  have k16: "length (take 16 dk) = 16" using len by simp
  define ct where "ct = map (\<lambda>(i, b). b XOR aes_CTR L (take 16 dk) ?iv i)
                          (zip [0..<length (PrivateKey K)] (PrivateKey K))"
  have ct: "aesCTRXOR L (take 16 dk) (PrivateKey K) ?iv = Inr ct"
    unfolding ct_def using k16 iv by (rule aesCTRXOR_Inr)
  have "aesCTRXOR L (take 16 dk) ct ?iv = Inr (PrivateKey K)"
    using ct by (rule aesCTRXOR_involution)
  then have dec: "map (\<lambda>(i, b). b XOR aes_CTR L (take 16 dk) ?iv i) (zip [0..<length ct] ct) =
      PrivateKey K"
    using k16 iv by (simp add: aesCTRXOR_Inr)
  have dk': "scrypt_Key L (bytes_of P) (take 32 rnd) 4096 8 6 32 = Inr dk"
    using dk by (simp add: lightScryptN_def lightScryptP_def scryptR_def scryptDklen_def)
  note W = Write_Inr[OF rnd attrs dk len ct]
  have R: "\<And>v. Read L (json_Marshal
       (\<lparr>EK_Address = Key_Address K,
        EK_Crypto =
          \<lparr>Cipher = ''aes-128-ctr'', CipherText = hex_EncodeToString ct,
           CipherParams = \<lparr>IV = hex_EncodeToString ?iv\<rparr>,
           KDF = ''scrypt'',
           KDFParams = [(''n'', IInt 4096), (''r'', IInt 8), (''p'', IInt 6),
             (''dklen'', IInt 32), (''salt'', IString (hex_EncodeToString (take 32 rnd)))],
           MAC = hex_EncodeToString (Keccak256 L (drop 16 dk @ ct))\<rparr>,
        EK_ID = uuid_String (Key_ID K), EK_Version = 3\<rparr>\<lparr>EK_Version := v\<rparr>)) P = Inr K"
    by (simp add: Read_written[OF dk' len iv] dec uuid_roundtrip[OF id16])
  show ?thesis
    by (rule exI, intro conjI allI, rule W, simp, rule R)
qed

theorem Read_skips_numeric_version_witness:
  "length (Key_ID example_Key) = 16 \<and> 48 \<le> length example_rnd \<and>
   attr_is_int None ''ScryptN'' \<and> attr_is_int None ''ScryptP'' \<and>
   scrypt_Key toy_lib (bytes_of ''pw'') (take 32 example_rnd) lightScryptN scryptR lightScryptP
     scryptDklen = Inr (map of_nat [2..<34]) \<and>
   length (map of_nat [2..<34] :: bytes) = 32 \<and>
   Write toy_lib example_Key ''pw'' None example_rnd = Inr (example_document (JNumber 3), []) \<and>
   Read toy_lib (example_document (JNumber 4)) ''pw'' = Inr example_Key"
proof -
  from Read_skips_numeric_version[OF example_facts(1-4) toy_scrypt_pw example_facts(5)]
  obtain ek where
    W: "Write toy_lib example_Key ''pw'' None example_rnd =
          Inr (json_Marshal ek, drop 48 example_rnd)"
    and R: "Read toy_lib (json_Marshal (ek\<lparr>EK_Version := 4\<rparr>)) ''pw'' = Inr example_Key"
    by blast
  have "json_Marshal ek = example_document (JNumber 3)" using W toy_Write by simp
  then have "json_Marshal (ek\<lparr>EK_Version := 4\<rparr>) = example_document (JNumber 4)"
    by (simp add: json_Marshal_def example_document_def)
  then show ?thesis using R toy_Write example_facts toy_scrypt_pw by simp
qed

text \<open>
  Claim C9. On the PBKDF2 path (\<open>kdf\<close> is \<open>pbkdf2\<close>) with a \<open>prf\<close> that is a string: if \<open>prf\<close>
  is not \<open>hmac-sha256\<close>, \<open>getKDFKey\<close> derives no key, whatever the other parameters are; and
  for a parameter set with a hexadecimal \<open>salt\<close> and numeric \<open>dklen\<close> and \<open>c\<close>, it fails with
  the unsupported-PRF error when \<open>prf\<close> is not \<open>hmac-sha256\<close> and otherwise returns the key
  \<open>pbkdf2.Key\<close> derives with HMAC-SHA256 for the length \<open>dklen\<close>.
\<close>

theorem getKDFKey_pbkdf2_prf:
  assumes kdf: "KDF cj = ''pbkdf2''"
      and prfv: "object_get (KDFParams cj) ''prf'' = Some (IString prf)"
  shows "(prf \<noteq> ''hmac-sha256'' \<longrightarrow> (\<forall>key. getKDFKey L cj auth \<noteq> Inr key)) \<and>
         (\<forall>saltHex salt dkLen c.
            object_get (KDFParams cj) ''salt'' = Some (IString saltHex) \<and>
            hex_DecodeString saltHex = Inr salt \<and>
            ensureInt (object_get (KDFParams cj) ''dklen'') = Inr dkLen \<and>
            ensureInt (object_get (KDFParams cj) ''c'') = Inr c \<longrightarrow>
            getKDFKey L cj auth =
              (if prf \<noteq> ''hmac-sha256'' then Inl (ErrUnsupportedPRF prf)
               else Inr (pbkdf2_Key L (bytes_of auth) salt c dkLen)))"
  using kdf prfv
  by (auto simp: getKDFKey_def Let_def scryptKDFName_def type_assert_string_def
      split: sum.splits option.splits iface.splits)

theorem getKDFKey_pbkdf2_prf_witness:
  "KDF example_pbkdf2 = ''pbkdf2'' \<and>
   object_get (KDFParams example_pbkdf2) ''prf'' = Some (IString ''hmac-sha512'') \<and>
   getKDFKey toy_lib example_pbkdf2 ''pw'' = Inl (ErrUnsupportedPRF ''hmac-sha512'')"
proof -
  have "getKDFKey toy_lib example_pbkdf2 ''pw'' = Inl (ErrUnsupportedPRF ''hmac-sha512'')"
    using getKDFKey_pbkdf2_prf[OF example_pbkdf2_facts(1,2), of toy_lib "''pw''"]
      example_pbkdf2_facts(3-6)
    by auto
  then show ?thesis using example_pbkdf2_facts(1,2) by simp
qed

section \<open>Further properties of the code\<close>

text \<open>
  Property X1. \<open>reverseBytes\<close>, the in-place swap loop, returns its argument reversed.
\<close>

theorem reverseBytes_reverses: "reverseBytes s = rev s"
  by (rule reverseBytes_rev)

theorem reverseBytes_reverses_witness: "reverseBytes [0x01, 0x02, 0x03] = rev [0x01, 0x02, 0x03]"
  by (rule reverseBytes_reverses)

text \<open>
  Property X2. What \<open>CalcTxInput\<close> returns on success: the selected outputs are a prefix,
  of some length \<open>k\<close>, of the sorted list; the total returned is 0 when nothing is selected
  and otherwise the value of the last output selected; no selected output but the last
  has a value above the amount; and when the prefix is not the whole list, the total
  returned is above the amount.
\<close>

theorem CalcTxInput_selects_prefix:
  assumes "CalcTxInput amount unspent = (unspent', Inr (sel, tot))"
  shows "\<exists>k\<le>length unspent'. sel = take k unspent' \<and>
           (k = 0 \<longrightarrow> tot = 0) \<and>
           (0 < k \<longrightarrow> tot = fst (UTXO_Value (unspent' ! (k - 1)))) \<and>
           (\<forall>i<k - 1. fst (UTXO_Value (unspent' ! i)) \<le> amount) \<and>
           (k < length unspent' \<longrightarrow> amount < tot)"
proof -
  have "CalcTxInput_loop amount unspent' [] 0 = Inr (sel, tot)"
    using assms by (auto simp: CalcTxInput_def Let_def)
  from CalcTxInput_loop_prefix[OF this] show ?thesis
    by (auto simp: not_less)
qed

theorem CalcTxInput_selects_prefix_witness:
  "CalcTxInput 3 [UTXO_of ''t1'' 0 1, UTXO_of ''t2'' 0 2] =
     ([UTXO_of ''t1'' 0 1, UTXO_of ''t2'' 0 2],
      Inr ([UTXO_of ''t1'' 0 1, UTXO_of ''t2'' 0 2], 2)) \<and>
   (\<exists>k\<le>length [UTXO_of ''t1'' 0 1, UTXO_of ''t2'' 0 2].
      [UTXO_of ''t1'' 0 1, UTXO_of ''t2'' 0 2] =
        take k [UTXO_of ''t1'' 0 1, UTXO_of ''t2'' 0 2] \<and>
      (0 < k \<longrightarrow> (2::rat) =
         fst (UTXO_Value ([UTXO_of ''t1'' 0 1, UTXO_of ''t2'' 0 2] ! (k - 1)))))"
proof -
  have h: "CalcTxInput 3 [UTXO_of ''t1'' 0 1, UTXO_of ''t2'' 0 2] =
     ([UTXO_of ''t1'' 0 1, UTXO_of ''t2'' 0 2],
      Inr ([UTXO_of ''t1'' 0 1, UTXO_of ''t2'' 0 2], 2))"
    by (simp add: CalcTxInput_def sort_Sort_def utxoSorter_Less_def UTXO_of_def UTXO_Value_def
        Let_def)
  from CalcTxInput_selects_prefix[OF h] h show ?thesis by blast
qed

text \<open>
  Property X3. A list that is already in ascending order of value is left as it is by
  \<open>CalcTxInput\<close>.
\<close>

theorem CalcTxInput_sorted_unchanged:
  assumes "sorted (map (\<lambda>u. fst (UTXO_Value u)) unspent)"
  shows "fst (CalcTxInput amount unspent) = unspent"
  using assms by (simp add: CalcTxInput_def Let_def utxoSorter_Less_key sort_Sort_sorted_id)

theorem CalcTxInput_sorted_unchanged_witness:
  "sorted (map (\<lambda>u. fst (UTXO_Value u)) [UTXO_of ''t1'' 0 1, UTXO_of ''t2'' 0 2]) \<and>
   fst (CalcTxInput 3 [UTXO_of ''t1'' 0 1, UTXO_of ''t2'' 0 2]) =
     [UTXO_of ''t1'' 0 1, UTXO_of ''t2'' 0 2]"
proof -
  have h: "sorted (map (\<lambda>u. fst (UTXO_Value u)) [UTXO_of ''t1'' 0 1, UTXO_of ''t2'' 0 2])"
    by (simp add: UTXO_of_def UTXO_Value_def)
  from CalcTxInput_sorted_unchanged[OF h, of 3] h show ?thesis by simp
qed

text \<open>
  Property X4. \<open>CreateClaimTx\<close> always succeeds: the transaction has the claim type, its
  claims are the caller's outputs in ascending order of \<open>SpentBlock\<close>, it has no inputs and
  one output, of the asset \<open>GasAssert\<close>, with the given value and address.
\<close>

theorem CreateClaimTx_result:
  "snd (CreateClaimTx val address unspent) =
     Inr \<lparr>Type = 0x02, Version = 0,
          XData = Some (map (\<lambda>utxo. \<lparr>TxID = TransactionID utxo, Vout = word_of_int (VoutN utxo)\<rparr>)
                         (fst (CreateClaimTx val address unspent))),
          Attributes = [], Inputs = [],
          Outputs = [\<lparr>AssertID = GasAssert, Value = val, Address = address\<rparr>],
          Scripts = []\<rparr>"
  by (simp add: CreateClaimTx_def NewRawClaimTx_def NewRawTx_def ClaimTransaction_def Let_def)

theorem CreateClaimTx_result_witness:
  "snd (CreateClaimTx 1 ''addr'' [UTXO_of ''t1'' 5 1]) =
     Inr \<lparr>Type = 0x02, Version = 0,
          XData = Some (map (\<lambda>utxo. \<lparr>TxID = TransactionID utxo, Vout = word_of_int (VoutN utxo)\<rparr>)
                         (fst (CreateClaimTx 1 ''addr'' [UTXO_of ''t1'' 5 1]))),
          Attributes = [], Inputs = [],
          Outputs = [\<lparr>AssertID = GasAssert, Value = 1, Address = ''addr''\<rparr>],
          Scripts = []\<rparr>"
  by (rule CreateClaimTx_result)

text \<open>
  Property X5. \<open>Read\<close> refuses, with the unsupported-version error, every document whose
  \<open>version\<close> is a JSON string other than \<open>"3"\<close>.
\<close>

theorem Read_rejects_string_version:
  assumes "object_get members ''version'' = Some (JString version)"
      and "version \<noteq> ''3''"
  shows "Read L (JObject members) password = Inl ErrUnsupportedVersion"
  using assms by (simp add: Read_def json_Unmarshal_map_def object_get_map_prod)

theorem Read_rejects_string_version_witness:
  "object_get [(''version'', JString ''4'')] ''version'' = Some (JString ''4'') \<and>
   ''4'' \<noteq> ''3'' \<and>
   Read toy_lib (JObject [(''version'', JString ''4'')]) ''pw'' = Inl ErrUnsupportedVersion"
proof -
  have h1: "object_get [(''version'', JString ''4'')] ''version'' = Some (JString ''4'')"
    by (simp add: object_get_def)
  have h2: "''4'' \<noteq> ''3''" by simp
  from Read_rejects_string_version[OF h1 h2] h1 h2 show ?thesis by blast
qed

text \<open>
  Property X6. \<open>decryptKeyV3\<close> refuses every record whose cipher is not \<open>aes-128-ctr\<close>.
\<close>

theorem decryptKeyV3_rejects_cipher:
  assumes "Cipher (EK_Crypto keyProtected) \<noteq> ''aes-128-ctr''"
  shows "decryptKeyV3 L keyProtected password =
           Inl (ErrCipherNotSupported (Cipher (EK_Crypto keyProtected)))"
  using assms by (simp add: decryptKeyV3_def)

theorem decryptKeyV3_rejects_cipher_witness:
  "Cipher (EK_Crypto (example_record\<lparr>EK_Crypto := example_pbkdf2\<lparr>Cipher := ''aes-256-cbc''\<rparr>\<rparr>)) \<noteq>
     ''aes-128-ctr'' \<and>
   decryptKeyV3 toy_lib (example_record\<lparr>EK_Crypto := example_pbkdf2\<lparr>Cipher := ''aes-256-cbc''\<rparr>\<rparr>)
     ''pw'' = Inl (ErrCipherNotSupported ''aes-256-cbc'')"
proof -
  let ?k = "example_record\<lparr>EK_Crypto := example_pbkdf2\<lparr>Cipher := ''aes-256-cbc''\<rparr>\<rparr>"
  have h: "Cipher (EK_Crypto ?k) \<noteq> ''aes-128-ctr''" by simp
  from decryptKeyV3_rejects_cipher[OF h, of toy_lib "''pw''"] h show ?thesis by simp
qed

text \<open>
  Property X7. For every record, whatever the key-derivation path: when the hexadecimal
  fields decode and the derived key has its 32 bytes, \<open>decryptKeyV3\<close> fails with the error
  built from \<open>ErrDecrypt\<close> whenever the MAC it computes differs from the stored MAC. A
  wrong password and a corrupted record are reported alike.
\<close>

theorem decryptKeyV3_mac_mismatch:
  assumes "Cipher (EK_Crypto k) = ''aes-128-ctr''"
      and "hex_DecodeString (MAC (EK_Crypto k)) = Inr mac"
      and "hex_DecodeString (IV (CipherParams (EK_Crypto k))) = Inr iv"
      and "hex_DecodeString (CipherText (EK_Crypto k)) = Inr cipherText"
      and "getKDFKey L (EK_Crypto k) password = Inr derivedKey"
      and "32 \<le> length derivedKey"
      and "Keccak256 L (take 16 (drop 16 derivedKey) @ cipherText) \<noteq> mac"
  shows "decryptKeyV3 L k password =
           Inl (ErrDecrypt
                  (hex_EncodeToString (Keccak256 L (take 16 (drop 16 derivedKey) @ cipherText)))
                  (hex_EncodeToString mac))"
  using assms by (simp add: decryptKeyV3_def keccakMAC_Inr Let_def)

theorem decryptKeyV3_mac_mismatch_witness:
  "Cipher (EK_Crypto example_record) = ''aes-128-ctr'' \<and>
   hex_DecodeString (MAC (EK_Crypto example_record)) = Inr [0x00] \<and>
   getKDFKey toy_lib (EK_Crypto example_record) ''pw'' = Inr (map of_nat [2..<34]) \<and>
   Keccak256 toy_lib (take 16 (drop 16 (map of_nat [2..<34])) @ [0x00]) \<noteq> [0x00] \<and>
   decryptKeyV3 toy_lib example_record ''pw'' =
     Inl (ErrDecrypt
            (hex_EncodeToString
               (Keccak256 toy_lib (take 16 (drop 16 (map of_nat [2..<34])) @ [0x00])))
            (hex_EncodeToString [0x00]))"
  using decryptKeyV3_mac_mismatch[OF example_mismatch_facts] example_mismatch_facts
  by blast

text \<open>
  Property X8. \<open>Read\<close> of what \<open>Write\<close> produced under a password \<open>P\<close>, called with a
  password \<open>P2\<close>: let \<open>dk\<close> and \<open>dk2\<close> be the 32-byte keys \<open>scrypt.Key\<close> derives from \<open>P\<close> and
  \<open>P2\<close> with the salt \<open>Write\<close> drew, and \<open>ct\<close> the cipher text. If Keccak-256 of
  \<open>dk2[16:32]\<close> followed by \<open>ct\<close> differs from the stored MAC, which is Keccak-256 of
  \<open>dk[16:32]\<close> followed by \<open>ct\<close>, \<open>Read\<close> fails with the error built from \<open>ErrDecrypt\<close> and the two
  MACs; if the two are equal, \<open>Read\<close> returns a key.
\<close>

theorem Read_wrong_password:
  assumes rnd: "48 \<le> length rnd"
      and attrs: "attr_is_int attrs ''ScryptN''" "attr_is_int attrs ''ScryptP''"
      and dk: "scrypt_Key L (bytes_of P) (take 32 rnd) lightScryptN scryptR lightScryptP
                 scryptDklen = Inr dk"
      and len: "length dk = 32"
      and dk2: "scrypt_Key L (bytes_of P2) (take 32 rnd) lightScryptN scryptR lightScryptP
                 scryptDklen = Inr dk2"
      and len2: "length dk2 = 32"
      and ct: "aesCTRXOR L (take 16 dk) (PrivateKey K) (take 16 (drop 32 rnd)) = Inr ct"
  shows "\<exists>doc. Write L K P attrs rnd = Inr (doc, drop 48 rnd) \<and>
           (Keccak256 L (drop 16 dk2 @ ct) \<noteq> Keccak256 L (drop 16 dk @ ct) \<longrightarrow>
              Read L doc P2 =
                Inl (ErrDecrypt (hex_EncodeToString (Keccak256 L (drop 16 dk2 @ ct)))
                       (hex_EncodeToString (Keccak256 L (drop 16 dk @ ct))))) \<and>
           (Keccak256 L (drop 16 dk2 @ ct) = Keccak256 L (drop 16 dk @ ct) \<longrightarrow>
              (\<exists>K'. Read L doc P2 = Inr K'))"
proof -
  have iv: "length (take 16 (drop 32 rnd)) = 16" using rnd by simp
  have dk2': "scrypt_Key L (bytes_of P2) (take 32 rnd) 4096 8 6 32 = Inr dk2"
    using dk2 by (simp add: lightScryptN_def lightScryptP_def scryptR_def scryptDklen_def)
  note W = Write_Inr[OF rnd attrs dk len ct]
  note R = Read_written[OF dk2' len2 iv]
  show ?thesis
    unfolding W by (simp add: R)
qed

theorem Read_wrong_password_witness:
  "\<exists>doc.
     aesCTRXOR toy_lib (take 16 (map of_nat [2..<34])) (PrivateKey example_Key)
       (take 16 (drop 32 example_rnd)) = Inr example_cipherText \<and>
     Keccak256 toy_lib (drop 16 (map of_nat [3..<35]) @ example_cipherText) \<noteq>
       Keccak256 toy_lib (drop 16 (map of_nat [2..<34]) @ example_cipherText) \<and>
     Write toy_lib example_Key ''pw'' None example_rnd = Inr (doc, drop 48 example_rnd) \<and>
     Read toy_lib doc ''pwx'' =
       Inl (ErrDecrypt
             (hex_EncodeToString
               (Keccak256 toy_lib (drop 16 (map of_nat [3..<35]) @ example_cipherText)))
             (hex_EncodeToString
               (Keccak256 toy_lib (drop 16 (map of_nat [2..<34]) @ example_cipherText))))"
  using Read_wrong_password[OF example_facts(2-4) toy_scrypt_pw example_facts(5)
      toy_scrypt_pwx example_facts_pwx toy_cipherText]
    toy_cipherText toy_macs_differ
  by blast

end
